theory Spec2Isabelle
  imports Main "HOL-Library.Char_ord" "HOL-Library.List_Lexorder" "HOL-Library.Option_ord"
begin

section \<open>Dates and times\<close>

text \<open>
  The program works with Python \<^verbatim>\<open>datetime\<close> values of microsecond resolution.
  A naive datetime (no \<^verbatim>\<open>tzinfo\<close>) is modelled by the number of microseconds between
  1970-01-01T00:00:00 and its wall-clock reading. A calendar date (year, month, day) is
  modelled by its day number (days since 1970-01-01), so that the next calendar date of
  \<open>d\<close> is \<open>d + 1\<close>, and a \<^verbatim>\<open>%Y-%m-%d\<close> label is modelled by the day number it names.

  An aware datetime carries its wall-clock reading and its UTC offset. The offset of the
  configured zone \<^verbatim>\<open>APP_TZ = "Asia/Kolkata"\<close> in the present era is +05:30
  (\<open>APP_TZ_utcoffset\<close>); its offsets through history are the table of the zone
  library, a parameter of the model (\<open>tz_wall_offset\<close>, \<open>tz_utc_offset\<close> below).

  The functions of this section are the operations on values computed from the reading
  of the clock. That reading lies in the present era, where the offset is +05:30 and
  no step leaves the representable range of \<^verbatim>\<open>datetime\<close>. The operations on values
  computed from a request check the range and consult the table; they follow in the
  next section.
\<close>

type_synonym naive = int

record aware =
  wall :: int
  utcoffset :: int

definition usec_per_day :: int where
  "usec_per_day = 86400000000"

definition APP_TZ_utcoffset :: int where
  "APP_TZ_utcoffset = 19800000000"

definition timedelta_days :: "int \<Rightarrow> int" where
  "timedelta_days n = n * usec_per_day"

text \<open>\<^verbatim>\<open>datetime(y, m, d, H, M, S)\<close>, the date (y, m, d) given by its day number.\<close>

definition datetime :: "int \<Rightarrow> int \<Rightarrow> int \<Rightarrow> int \<Rightarrow> naive" where
  "datetime d H M S = d * usec_per_day + ((H * 60 + M) * 60 + S) * 1000000"

text \<open>The date part (\<^verbatim>\<open>.year, .month, .day\<close>) of a wall-clock reading.\<close>

definition date_of :: "naive \<Rightarrow> int" where
  "date_of w = w div usec_per_day"

definition tz_localize :: "naive \<Rightarrow> aware" where
  "tz_localize w = \<lparr>wall = w, utcoffset = APP_TZ_utcoffset\<rparr>"

definition UTC_localize :: "naive \<Rightarrow> aware" where
  "UTC_localize w = \<lparr>wall = w, utcoffset = 0\<rparr>"

definition utc_instant :: "aware \<Rightarrow> int" where
  "utc_instant a = wall a - utcoffset a"

definition astimezone :: "aware \<Rightarrow> int \<Rightarrow> aware" where
  "astimezone a off = \<lparr>wall = utc_instant a + off, utcoffset = off\<rparr>"

definition replace_tzinfo_None :: "aware \<Rightarrow> naive" where
  "replace_tzinfo_None a = wall a"

text \<open>Aware datetimes are compared as instants; adding a \<^verbatim>\<open>timedelta\<close> moves the
  wall clock and keeps the zone.\<close>

definition aware_ge :: "aware \<Rightarrow> aware \<Rightarrow> bool" where
  "aware_ge a b = (utc_instant b \<le> utc_instant a)"

definition aware_add :: "aware \<Rightarrow> int \<Rightarrow> aware" where
  "aware_add a td = a\<lparr>wall := wall a + td\<rparr>"

definition aware_sub :: "aware \<Rightarrow> int \<Rightarrow> aware" where
  "aware_sub a td = a\<lparr>wall := wall a - td\<rparr>"

text \<open>\<^verbatim>\<open>datetime.now(tz)\<close>: the reading of the clock (a UTC instant) in the configured zone.\<close>

definition datetime_now :: "naive \<Rightarrow> aware" where
  "datetime_now clock = astimezone (UTC_localize clock) APP_TZ_utcoffset"

section \<open>Library functions, errors and checked operations\<close>

text \<open>
  The standard-library parsers are parameters of the model: \<^verbatim>\<open>datetime.fromisoformat\<close>,
  \<^verbatim>\<open>datetime.strptime\<close> (value, then format) and \<^verbatim>\<open>int\<close> on a string. Each returns
  \<open>None\<close> where Python raises \<^verbatim>\<open>ValueError\<close>. So is the table of the zone
  \<^verbatim>\<open>pytz.timezone(APP_TZ)\<close>: \<open>tz_wall_offset w\<close> is the offset that \<^verbatim>\<open>tz.localize\<close>
  gives the wall clock \<open>w\<close>, and \<open>tz_utc_offset u\<close> the offset in force at the UTC
  instant \<open>u\<close>.
\<close>

datatype pydt = Naive naive | Aware aware

record pylib =
  fromisoformat :: "string \<Rightarrow> pydt option"
  strptime :: "string \<Rightarrow> string \<Rightarrow> naive option"
  int_of_str :: "string \<Rightarrow> int option"
  tz_wall_offset :: "naive \<Rightarrow> int"
  tz_utc_offset :: "naive \<Rightarrow> int"

datatype error = KeyError string | ValueError | OverflowError

text \<open>
  The representable range: \<^verbatim>\<open>datetime.min\<close> is 0001-01-01T00:00:00 (day -719162) and
  \<^verbatim>\<open>datetime.max\<close> is 9999-12-31T23:59:59.999999 (day 2932896). Arithmetic whose
  result leaves the range raises \<^verbatim>\<open>OverflowError\<close>.
\<close>

definition datetime_min :: naive where
  "datetime_min = - 719162 * usec_per_day"

definition datetime_max :: naive where
  "datetime_max = 2932897 * usec_per_day - 1"

definition checked :: "naive \<Rightarrow> error + naive" where
  "checked t = (if datetime_min \<le> t \<and> t \<le> datetime_max then Inr t else Inl OverflowError)"

text \<open>
  \<^verbatim>\<open>tz.localize(w)\<close>: the library looks the wall clock up one day before and one day
  after \<open>w\<close> (both must be representable) and attaches the offset of the table.
\<close>

definition localize :: "pylib \<Rightarrow> naive \<Rightarrow> error + aware" where
  "localize lib w =
     (case checked (w - timedelta_days 1) of
        Inl e \<Rightarrow> Inl e
      | Inr _ \<Rightarrow>
          (case checked (w + timedelta_days 1) of
             Inl e \<Rightarrow> Inl e
           | Inr _ \<Rightarrow> Inr \<lparr>wall = w, utcoffset = tz_wall_offset lib w\<rparr>))"

text \<open>An aware value plus a \<^verbatim>\<open>timedelta\<close>: the wall clock moves, the offset stays.\<close>

definition plus_timedelta :: "aware \<Rightarrow> int \<Rightarrow> error + aware" where
  "plus_timedelta a td =
     (case checked (wall a + td) of Inl e \<Rightarrow> Inl e | Inr w \<Rightarrow> Inr (a\<lparr>wall := w\<rparr>))"

text \<open>\<^verbatim>\<open>a.astimezone(pytz.UTC).replace(tzinfo=None)\<close>\<close>

definition to_utc_naive :: "aware \<Rightarrow> error + naive" where
  "to_utc_naive a = checked (wall a - utcoffset a)"

text \<open>\<^verbatim>\<open>pytz.UTC.localize(u).astimezone(tz)\<close>\<close>

definition utc_to_app_tz :: "pylib \<Rightarrow> naive \<Rightarrow> error + aware" where
  "utc_to_app_tz lib u =
     (case checked (u + tz_utc_offset lib u) of
        Inl e \<Rightarrow> Inl e
      | Inr w \<Rightarrow> Inr \<lparr>wall = w, utcoffset = tz_utc_offset lib u\<rparr>)"

section \<open>The window resolver\<close>

text \<open>
  The body of \<^verbatim>\<open>get_window_bounds\<close> on the reading of the clock in the zone.
\<close>

definition window_at :: "aware \<Rightarrow> aware \<times> aware \<times> naive \<times> naive" where
  "window_at now_local =
     (let ten_am_today = tz_localize (datetime (date_of (wall now_local)) 10 0 1);
          start_local = (if aware_ge now_local ten_am_today then ten_am_today
                         else aware_sub ten_am_today (timedelta_days 1));
          end_local = aware_add start_local (timedelta_days 1);
          start_utc = replace_tzinfo_None (astimezone start_local 0);
          end_utc = replace_tzinfo_None (astimezone end_local 0)
      in (start_local, end_local, start_utc, end_utc))"

text \<open>
  The body of \<^verbatim>\<open>get_window_bounds\<close> on a reference that comes from the request: each
  step is checked, and the first \<^verbatim>\<open>OverflowError\<close> leaves the function.
\<close>

definition window_bounds :: "pylib \<Rightarrow> aware \<Rightarrow> error + aware \<times> aware \<times> naive \<times> naive" where
  "window_bounds lib now_local =
     (case localize lib (datetime (date_of (wall now_local)) 10 0 1) of
        Inl e \<Rightarrow> Inl e
      | Inr ten_am_today \<Rightarrow>
          (case (if aware_ge now_local ten_am_today then Inr ten_am_today
                 else plus_timedelta ten_am_today (- timedelta_days 1)) of
             Inl e \<Rightarrow> Inl e
           | Inr start_local \<Rightarrow>
               (case plus_timedelta start_local (timedelta_days 1) of
                  Inl e \<Rightarrow> Inl e
                | Inr end_local \<Rightarrow>
                    (case to_utc_naive start_local of
                       Inl e \<Rightarrow> Inl e
                     | Inr start_utc \<Rightarrow>
                         (case to_utc_naive end_local of
                            Inl e \<Rightarrow> Inl e
                          | Inr end_utc \<Rightarrow> Inr (start_local, end_local, start_utc, end_utc))))))"

text \<open>
  \<^verbatim>\<open>get_window_bounds(ref_dt_local=None)\<close>. The last argument is the reading of the
  clock, used when no reference is given (a \<^verbatim>\<open>datetime\<close> is always truthy, so
  \<^verbatim>\<open>ref_dt_local or datetime.now(tz)\<close> takes the clock exactly when the reference is
  \<^verbatim>\<open>None\<close>).
\<close>

definition get_window_bounds ::
    "pylib \<Rightarrow> aware option \<Rightarrow> naive \<Rightarrow> error + aware \<times> aware \<times> naive \<times> naive" where
  "get_window_bounds lib ref_dt_local clock =
     (case ref_dt_local of
        Some r \<Rightarrow> window_bounds lib r
      | None \<Rightarrow> Inr (window_at (datetime_now clock)))"

text \<open>The filter of every windowed query:
  \<^verbatim>\<open>Run.started_at >= start_utc, Run.started_at < end_utc\<close>.\<close>

definition in_window :: "naive \<Rightarrow> naive \<Rightarrow> naive \<Rightarrow> bool" where
  "in_window start_utc end_utc t = (start_utc \<le> t \<and> t < end_utc)"

section \<open>Request parameters\<close>

text \<open>\<^verbatim>\<open>request.args\<close>: \<open>args k\<close> is \<^verbatim>\<open>request.args.get(k)\<close>.\<close>

type_synonym args = "string \<rightharpoonup> string"

text \<open>Truth value of an optional string: \<^verbatim>\<open>None\<close> and the empty string are false.\<close>

definition truthy :: "string option \<Rightarrow> bool" where
  "truthy v = (case v of None \<Rightarrow> False | Some s \<Rightarrow> s \<noteq> [])"

text \<open>\<^verbatim>\<open>v or d\<close> for an optional string \<open>v\<close>.\<close>

definition or_default :: "string option \<Rightarrow> string \<Rightarrow> string" where
  "or_default v d = (case v of None \<Rightarrow> d | Some s \<Rightarrow> if s = [] then d else s)"

definition parse_dt_local :: "pylib \<Rightarrow> string \<Rightarrow> error + naive option" where
  "parse_dt_local lib s =
     (if s = [] then Inr None
      else case strptime lib s ''%Y-%m-%d %H:%M:%S'' of
             None \<Rightarrow> Inl ValueError
           | Some w \<Rightarrow>
               (case localize lib w of
                  Inl e \<Rightarrow> Inl e
                | Inr a \<Rightarrow> (case to_utc_naive a of Inl e \<Rightarrow> Inl e | Inr u \<Rightarrow> Inr (Some u))))"

text \<open>
  \<^verbatim>\<open>parse_iso_utc\<close>: only \<^verbatim>\<open>fromisoformat\<close> is inside the \<^verbatim>\<open>try\<close>; the conversion
  of an aware value to UTC can raise \<^verbatim>\<open>OverflowError\<close>.
\<close>

definition parse_iso_utc :: "pylib \<Rightarrow> string \<Rightarrow> error + naive option" where
  "parse_iso_utc lib v =
     (if v = [] then Inr None
      else case fromisoformat lib v of
             None \<Rightarrow> Inr None
           | Some (Aware a) \<Rightarrow> (case to_utc_naive a of Inl e \<Rightarrow> Inl e | Inr u \<Rightarrow> Inr (Some u))
           | Some (Naive w) \<Rightarrow> Inr (Some w))"

text \<open>
  \<^verbatim>\<open>resolve_window_from_request\<close>. Its two guarded blocks are \<open>explicit_window\<close> and
  \<open>day_window\<close>; each gives \<open>Inr None\<close> where the source falls through to the next
  block, and \<open>Inl\<close> where an exception leaves the function (the \<^verbatim>\<open>except ValueError\<close>
  of the second block does not catch \<^verbatim>\<open>OverflowError\<close>).
\<close>

definition explicit_window :: "pylib \<Rightarrow> args \<Rightarrow> error + (aware \<times> aware \<times> naive \<times> naive) option" where
  "explicit_window lib args =
     (case (args ''start'', args ''end'') of
        (Some start_param, Some end_param) \<Rightarrow>
          if start_param \<noteq> [] \<and> end_param \<noteq> [] then
            (case parse_iso_utc lib start_param of
               Inl e \<Rightarrow> Inl e
             | Inr start_v \<Rightarrow>
                 (case parse_iso_utc lib end_param of
                    Inl e \<Rightarrow> Inl e
                  | Inr end_v \<Rightarrow>
                      (case (start_v, end_v) of
                         (Some start_utc, Some end_utc) \<Rightarrow>
                           (case utc_to_app_tz lib start_utc of
                              Inl e \<Rightarrow> Inl e
                            | Inr start_local \<Rightarrow>
                                (case utc_to_app_tz lib end_utc of
                                   Inl e \<Rightarrow> Inl e
                                 | Inr end_local \<Rightarrow>
                                     Inr (Some (start_local, end_local, start_utc, end_utc))))
                       | _ \<Rightarrow> Inr None)))
          else Inr None
      | _ \<Rightarrow> Inr None)"

definition day_window ::
    "pylib \<Rightarrow> args \<Rightarrow> naive \<Rightarrow> error + (aware \<times> aware \<times> naive \<times> naive) option" where
  "day_window lib args clock =
     (case args ''day'' of
        None \<Rightarrow> Inr None
      | Some day_param \<Rightarrow>
          if day_param = [] then Inr None
          else (case strptime lib day_param ''%Y-%m-%d'' of
                  None \<Rightarrow> Inr None
                | Some day \<Rightarrow>
                    (case localize lib (datetime (date_of day) 12 0 0) of
                       Inl e \<Rightarrow> Inl e
                     | Inr ref_local \<Rightarrow>
                         (case get_window_bounds lib (Some ref_local) clock of
                            Inl e \<Rightarrow> Inl e
                          | Inr w \<Rightarrow> Inr (Some w)))))"

definition resolve_window_from_request ::
    "pylib \<Rightarrow> args \<Rightarrow> naive \<Rightarrow> error + aware \<times> aware \<times> naive \<times> naive" where
  "resolve_window_from_request lib args clock =
     (case explicit_window lib args of
        Inl e \<Rightarrow> Inl e
      | Inr (Some w) \<Rightarrow> Inr w
      | Inr None \<Rightarrow>
          (case day_window lib args clock of
             Inl e \<Rightarrow> Inl e
           | Inr (Some w) \<Rightarrow> Inr w
           | Inr None \<Rightarrow> get_window_bounds lib None clock))"

section \<open>The run table\<close>

text \<open>
  A row of table \<^verbatim>\<open>runs\<close> (column \<^verbatim>\<open>notes\<close> is field \<open>notes_text\<close>; the surrogate key \<^verbatim>\<open>id\<close> is left out: only
  \<^verbatim>\<open>count(Run.id)\<close> uses it, and it is never null). The table is the list of its rows.
\<close>

record Run =
  request_id :: string
  scheduler :: string
  cloud :: "string option"
  started_at :: naive
  ended_at :: "naive option"
  status :: string
  reason :: "string option"
  subreason :: "string option"
  notes_text :: "string option"



text \<open>\<^verbatim>\<open>.filter(Run.started_at >= start_utc, Run.started_at < end_utc)\<close>\<close>

definition window_rows :: "naive \<Rightarrow> naive \<Rightarrow> Run list \<Rightarrow> Run list" where
  "window_rows start_utc end_utc db = filter (\<lambda>r. in_window start_utc end_utc (started_at r)) db"

text \<open>
  \<^verbatim>\<open>GROUP BY key\<close> with \<^verbatim>\<open>count(Run.id)\<close>: one row per key that occurs. SQL fixes
  no order of the rows without \<^verbatim>\<open>ORDER BY\<close> (SQLite returns them sorted by key); here
  they come in the order of first occurrence, and no statement below depends on it.
\<close>

definition group_count :: "('a \<Rightarrow> 'k) \<Rightarrow> 'a list \<Rightarrow> ('k \<times> nat) list" where
  "group_count key xs =
     map (\<lambda>k. (k, length (filter (\<lambda>x. key x = k) xs))) (remdups (map key xs))"

text \<open>
  \<^verbatim>\<open>.order_by(Run.started_at.desc())\<close>. The order among rows of equal
  \<^verbatim>\<open>started_at\<close> is not fixed by the query; no statement below depends on it.
\<close>

definition order_by_started_desc :: "Run list \<Rightarrow> Run list" where
  "order_by_started_desc rows = rev (sort_key started_at rows)"


section \<open>Read endpoints\<close>







text \<open>
  The \<^verbatim>\<open>/details\<close> page. Its own parser \<^verbatim>\<open>parse_dt_local\<close> is called outside any
  \<^verbatim>\<open>try\<close>, so a \<^verbatim>\<open>ValueError\<close> leaves the view (\<open>Inl\<close>). A bound that is
  \<^verbatim>\<open>None\<close> compares as SQL NULL and selects no row.
\<close>

definition details :: "pylib \<Rightarrow> args \<Rightarrow> naive \<Rightarrow> Run list \<Rightarrow> error + (Run list \<times> aware \<times> aware)" where
  "details lib args clock db =
     (case get_window_bounds lib None clock of
        Inl e \<Rightarrow> Inl e
      | Inr (start_local, end_local, start_utc, end_utc) \<Rightarrow>
          (case (if truthy (args ''start'') \<and> truthy (args ''end'') then
                   (case parse_dt_local lib (or_default (args ''start'') []) of
                      Inl e \<Rightarrow> Inl e
                    | Inr s \<Rightarrow>
                        (case parse_dt_local lib (or_default (args ''end'') []) of
                           Inl e \<Rightarrow> Inl e
                         | Inr e \<Rightarrow> Inr (s, e)))
                 else Inr (Some start_utc, Some end_utc)) of
             Inl e \<Rightarrow> Inl e
           | Inr (Some s, Some e) \<Rightarrow>
               Inr (order_by_started_desc (window_rows s e db), start_local, end_local)
           | Inr _ \<Rightarrow> Inr ([], start_local, end_local)))"

section \<open>Cloud trend\<close>

record bucket =
  passed :: nat
  failed :: nat
  total :: nat

definition zero_bucket :: bucket where
  "zero_bucket = \<lparr>passed = 0, failed = 0, total = 0\<rparr>"

record trend =
  trend_days :: "int list"
  trend_clouds :: "string \<rightharpoonup> (int \<times> bucket) list"
  trend_window :: "aware \<times> aware"

text \<open>\<^verbatim>\<open>days = int(request.args.get("days", 7))\<close>, 7 on \<^verbatim>\<open>ValueError\<close>, then clamped.\<close>

definition trend_days_param :: "pylib \<Rightarrow> args \<Rightarrow> int" where
  "trend_days_param lib args =
     (let days = (case args ''days'' of
                    None \<Rightarrow> 7
                  | Some s \<Rightarrow> (case int_of_str lib s of Some n \<Rightarrow> n | None \<Rightarrow> 7))
      in max 1 (min days 30))"

text \<open>
  The grouped query: \<^verbatim>\<open>func.date(Run.started_at)\<close> is the date part of the stored
  value, and the rows are grouped by it, the cloud and the status.
\<close>

definition trend_rows :: "naive \<Rightarrow> naive \<Rightarrow> Run list \<Rightarrow> ((int \<times> string option \<times> string) \<times> nat) list" where
  "trend_rows start_utc end_utc db =
     group_count (\<lambda>r. (date_of (started_at r), cloud r, status r)) (window_rows start_utc end_utc db)"

text \<open>The body of the loop over the grouped rows.\<close>

definition bucket_row ::
    "((int \<times> string option \<times> string) \<times> nat) \<Rightarrow> (string \<rightharpoonup> (int \<rightharpoonup> bucket)) \<Rightarrow> (string \<rightharpoonup> (int \<rightharpoonup> bucket))" where
  "bucket_row row clouds =
     (case row of ((run_date, cloud_v, status_v), count) \<Rightarrow>
        let cloud_key = or_default cloud_v ''unknown'';
            stats_by_day = (case clouds cloud_key of None \<Rightarrow> Map.empty | Some m \<Rightarrow> m);
            day_bucket = (case stats_by_day run_date of None \<Rightarrow> zero_bucket | Some b \<Rightarrow> b);
            day_bucket = (if status_v = ''PASSED''
                          then day_bucket\<lparr>passed := passed day_bucket + count\<rparr>
                          else day_bucket\<lparr>failed := failed day_bucket + count\<rparr>);
            day_bucket = day_bucket\<lparr>total := total day_bucket + count\<rparr>
        in clouds(cloud_key \<mapsto> stats_by_day(run_date \<mapsto> day_bucket)))"

definition default_clouds :: "string \<rightharpoonup> (int \<rightharpoonup> bucket)" where
  "default_clouds = [''blr-cloud4'' \<mapsto> Map.empty, ''blr-cloud5'' \<mapsto> Map.empty]"

definition series_of :: "int list \<Rightarrow> (int \<rightharpoonup> bucket) \<Rightarrow> (int \<times> bucket) list" where
  "series_of day_labels stats_by_day =
     map (\<lambda>day. (day, case stats_by_day day of None \<Rightarrow> zero_bucket | Some b \<Rightarrow> b)) day_labels"

definition api_cloud_trend :: "pylib \<Rightarrow> args \<Rightarrow> naive \<Rightarrow> Run list \<Rightarrow> trend" where
  "api_cloud_trend lib args clock db =
     (let days = trend_days_param lib args;
          now_local = datetime_now clock;
          midnight_today = tz_localize (datetime (date_of (wall now_local)) 0 0 0);
          start_local = aware_sub midnight_today (timedelta_days (days - 1));
          end_local = aware_add midnight_today (timedelta_days 1);
          start_utc = replace_tzinfo_None (astimezone start_local 0);
          end_utc = replace_tzinfo_None (astimezone end_local 0);
          day_labels = map (\<lambda>i. date_of (wall (aware_add start_local (timedelta_days (int i)))))
                           [0 ..< nat days];
          rows = trend_rows start_utc end_utc db;
          clouds = fold bucket_row rows default_clouds;
          clouds_sorted = (\<lambda>cloud_name. map_option (series_of day_labels) (clouds cloud_name))
      in \<lparr>trend_days = day_labels, trend_clouds = clouds_sorted,
          trend_window = (start_local, end_local)\<rparr>)"

section \<open>Ingestion\<close>

text \<open>
  An element of the payload is a JSON object with string values: \<open>item k\<close> is
  \<^verbatim>\<open>item.get(k)\<close>, and \<^verbatim>\<open>item[k]\<close> raises \<^verbatim>\<open>KeyError\<close> where it is \<open>None\<close>.
\<close>

type_synonym item = "string \<rightharpoonup> string"

datatype payload = JArray "item list" | JOther

text \<open>The \<^verbatim>\<open>DateTime\<close> column keeps the wall-clock fields of the value written to it.\<close>

definition stored_datetime :: "pydt \<Rightarrow> naive" where
  "stored_datetime d = (case d of Naive w \<Rightarrow> w | Aware a \<Rightarrow> wall a)"

text \<open>
  The assignments of the loop body. They overwrite every column but \<^verbatim>\<open>request_id\<close>,
  so the record after them depends on the element and the key only.
\<close>

definition assign_fields :: "pylib \<Rightarrow> item \<Rightarrow> string \<Rightarrow> error + Run" where
  "assign_fields lib item rid =
     (case item ''started_at'' of
        None \<Rightarrow> Inl (KeyError ''started_at'')
      | Some s \<Rightarrow>
          (case fromisoformat lib s of
             None \<Rightarrow> Inl ValueError
           | Some st \<Rightarrow>
               (case (if truthy (item ''ended_at'')
                      then (case fromisoformat lib (or_default (item ''ended_at'') []) of
                              None \<Rightarrow> Inl ValueError
                            | Some en \<Rightarrow> Inr (Some (stored_datetime en)))
                      else Inr None) of
                  Inl e \<Rightarrow> Inl e
                | Inr en \<Rightarrow>
                    Inr \<lparr>request_id = rid,
                         scheduler = (case item ''scheduler'' of None \<Rightarrow> ''BLR-NSP-SCHEDULER1'' | Some v \<Rightarrow> v),
                         cloud = item ''cloud'',
                         started_at = stored_datetime st,
                         ended_at = en,
                         status = (case item ''status'' of None \<Rightarrow> ''FAILED'' | Some v \<Rightarrow> v),
                         reason = item ''reason'',
                         subreason = item ''subreason'',
                         notes_text = item ''notes''\<rparr>)))"

text \<open>Writing through the object that \<^verbatim>\<open>.first()\<close> returned: the first row with the key.\<close>

fun update_first :: "string \<Rightarrow> Run \<Rightarrow> Run list \<Rightarrow> Run list" where
  "update_first rid rec [] = []"
| "update_first rid rec (r # rs) =
     (if request_id r = rid then rec # rs else r # update_first rid rec rs)"

text \<open>
  The loop over the payload, on the rows as the session sees them (a query flushes the
  pending rows first, so a row added by an earlier element is found by a later one).
  An exception leaves the loop at once.
\<close>

fun ingest_loop :: "pylib \<Rightarrow> item list \<Rightarrow> Run list \<times> nat \<times> nat \<Rightarrow> error + Run list \<times> nat \<times> nat" where
  "ingest_loop lib [] acc = Inr acc"
| "ingest_loop lib (item # rest) (session, added, updated) =
     (case item ''request_id'' of
        None \<Rightarrow> Inl (KeyError ''request_id'')
      | Some rid \<Rightarrow>
          (case find (\<lambda>r. request_id r = rid) session of
             None \<Rightarrow>
               (case assign_fields lib item rid of
                  Inl e \<Rightarrow> Inl e
                | Inr rec \<Rightarrow> ingest_loop lib rest (session @ [rec], added + 1, updated))
           | Some old \<Rightarrow>
               (case assign_fields lib item rid of
                  Inl e \<Rightarrow> Inl e
                | Inr rec \<Rightarrow> ingest_loop lib rest (update_first rid rec session, added, updated + 1))))"

text \<open>
  \<^verbatim>\<open>ingest_json\<close>, from the stored table to the response and the stored table after the
  request. The only \<^verbatim>\<open>db.session.commit()\<close> follows the loop: when the loop raises, the
  commit is not reached and the request ends with the table as it was.
\<close>

datatype ingest_response = BadRequest | Ingested nat nat | Failed error

definition ingest_json :: "pylib \<Rightarrow> payload \<Rightarrow> Run list \<Rightarrow> ingest_response \<times> Run list" where
  "ingest_json lib payload db =
     (case payload of
        JOther \<Rightarrow> (BadRequest, db)
      | JArray items \<Rightarrow>
          (case ingest_loop lib items (db, 0, 0) of
             Inl e \<Rightarrow> (Failed e, db)
           | Inr (session, added, updated) \<Rightarrow> (Ingested added updated, session)))"


section \<open>Vocabulary of the statements\<close>

text \<open>
  The canonical window of a local calendar date \<open>d\<close>, as the specification words it:
  from 10:00:01 local time on \<open>d\<close> to 10:00:01 local time on the next date, at the
  offset +05:30, with the same two instants as naive UTC values.
\<close>

definition anchored_window :: "int \<Rightarrow> aware \<times> aware \<times> naive \<times> naive" where
  "anchored_window d =
     (let A = tz_localize (datetime d 10 0 1);
          B = tz_localize (datetime (d + 1) 10 0 1)
      in (A, B, utc_instant A, utc_instant B))"

definition start_utc_of :: "aware \<times> aware \<times> naive \<times> naive \<Rightarrow> naive" where
  "start_utc_of w = fst (snd (snd w))"

definition end_utc_of :: "aware \<times> aware \<times> naive \<times> naive \<Rightarrow> naive" where
  "end_utc_of w = snd (snd (snd w))"

text \<open>
  The era of the fixed offset. Since 1945-10-15 (day -8844) the zone is at +05:30:
  \<open>ist_zone\<close> says so of the table of the zone library. A day is \<open>modern\<close> from
  1945-10-16 to 9999-12-30, where neither the day before nor the day after leaves the
  fixed offset or the range of \<^verbatim>\<open>datetime\<close>; a UTC instant is modern from 1945-10-15
  on while its local reading is representable.
\<close>

definition IST_since :: naive where
  "IST_since = datetime (- 8844) 0 0 0"

definition ist_zone :: "pylib \<Rightarrow> bool" where
  "ist_zone lib =
     ((\<forall>w. IST_since \<le> w \<longrightarrow> tz_wall_offset lib w = APP_TZ_utcoffset)
      \<and> (\<forall>u. IST_since \<le> u \<longrightarrow> tz_utc_offset lib u = APP_TZ_utcoffset))"

definition modern_day :: "int \<Rightarrow> bool" where
  "modern_day d = (- 8843 \<le> d \<and> d \<le> 2932895)"


text \<open>
  What an ISO string denotes (an aware value is converted to UTC, a naive one is taken
  as UTC), when a parameter parses, and when what it denotes is representable.
\<close>

definition iso_instant :: "pydt \<Rightarrow> naive" where
  "iso_instant p = (case p of Naive w \<Rightarrow> w | Aware a \<Rightarrow> utc_instant a)"

definition parses_iso :: "pylib \<Rightarrow> string option \<Rightarrow> bool" where
  "parses_iso lib v = (case v of None \<Rightarrow> False | Some s \<Rightarrow> s \<noteq> [] \<and> fromisoformat lib s \<noteq> None)"

definition parses_day :: "pylib \<Rightarrow> string option \<Rightarrow> bool" where
  "parses_day lib v = (case v of None \<Rightarrow> False | Some s \<Rightarrow> s \<noteq> [] \<and> strptime lib s ''%Y-%m-%d'' \<noteq> None)"

definition representable :: "pylib \<Rightarrow> string option \<Rightarrow> bool" where
  "representable lib v =
     (case v of
        None \<Rightarrow> True
      | Some s \<Rightarrow>
          (case fromisoformat lib s of
             None \<Rightarrow> True
           | Some p \<Rightarrow> datetime_min \<le> iso_instant p \<and> iso_instant p \<le> datetime_max))"

text \<open>
  The bucket of a cloud and a day in the nested dictionary of the trend view, the rows
  of a key in the table, and the runs that the trend view counts for a cloud and a day
  label: those in the queried range whose cloud key is \<open>c\<close> and whose stored value has
  date part \<open>day\<close>.
\<close>

definition lookup_bucket :: "(string \<rightharpoonup> (int \<rightharpoonup> bucket)) \<Rightarrow> string \<Rightarrow> int \<Rightarrow> bucket" where
  "lookup_bucket clouds c d =
     (case clouds c of
        None \<Rightarrow> zero_bucket
      | Some m \<Rightarrow> (case m d of None \<Rightarrow> zero_bucket | Some b \<Rightarrow> b))"

definition row_in :: "string \<Rightarrow> int \<Rightarrow> (int \<times> string option \<times> string) \<Rightarrow> bool" where
  "row_in c d k = (or_default (fst (snd k)) ''unknown'' = c \<and> fst k = d)"

definition trend_matching :: "int \<Rightarrow> int \<Rightarrow> string \<Rightarrow> int \<Rightarrow> Run list \<Rightarrow> Run list" where
  "trend_matching today D c day db =
     filter (\<lambda>r. in_window (datetime (today - (D - 1)) 0 0 0 - APP_TZ_utcoffset)
                            (datetime (today + 1) 0 0 0 - APP_TZ_utcoffset) (started_at r)
                \<and> or_default (cloud r) ''unknown'' = c
                \<and> date_of (started_at r) = day) db"

definition rows_with_key :: "string \<Rightarrow> Run list \<Rightarrow> Run list" where
  "rows_with_key rid db = filter (\<lambda>r. request_id r = rid) db"

text \<open>
  A well-formed element of an ingestion payload, as the specification words it: it
  carries a \<^verbatim>\<open>request_id\<close> and a \<^verbatim>\<open>started_at\<close> that parses, and its \<^verbatim>\<open>ended_at\<close>,
  when present and not empty, parses. The record of an element: each column from the
  field of the same name, with the defaults of the specification (scheduler
  \<^verbatim>\<open>BLR-NSP-SCHEDULER1\<close>, status \<^verbatim>\<open>FAILED\<close>).
\<close>

definition well_formed :: "pylib \<Rightarrow> item \<Rightarrow> bool" where
  "well_formed lib item =
     (item ''request_id'' \<noteq> None
      \<and> (case item ''started_at'' of None \<Rightarrow> False | Some s \<Rightarrow> fromisoformat lib s \<noteq> None)
      \<and> (case item ''ended_at'' of
            None \<Rightarrow> True
          | Some e \<Rightarrow> e = [] \<or> fromisoformat lib e \<noteq> None))"

definition parsed_datetime :: "pylib \<Rightarrow> string option \<Rightarrow> naive option" where
  "parsed_datetime lib v =
     (case v of
        None \<Rightarrow> None
      | Some s \<Rightarrow> if s = [] then None else map_option stored_datetime (fromisoformat lib s))"

definition run_of_item :: "pylib \<Rightarrow> item \<Rightarrow> string \<Rightarrow> naive \<Rightarrow> Run" where
  "run_of_item lib item rid start =
     \<lparr>request_id = rid,
      scheduler = (case item ''scheduler'' of None \<Rightarrow> ''BLR-NSP-SCHEDULER1'' | Some v \<Rightarrow> v),
      cloud = item ''cloud'',
      started_at = start,
      ended_at = parsed_datetime lib (item ''ended_at''),
      status = (case item ''status'' of None \<Rightarrow> ''FAILED'' | Some v \<Rightarrow> v),
      reason = item ''reason'',
      subreason = item ''subreason'',
      notes_text = item ''notes''\<rparr>"

section \<open>Example inputs\<close>

text \<open>
  Concrete inputs for the closed statements below. Day 20385 is 2025-10-24 and day
  2932896 is 9999-12-31. The example parsers know a few strings and reject every other
  one; the example zone table has +06:30 before 1945-10-15 and +05:30 since.
\<close>

definition example_fromisoformat :: "string \<Rightarrow> pydt option" where
  "example_fromisoformat s =
     (if s = ''2025-10-24T05:00:00'' then Some (Naive (datetime 20385 5 0 0))
      else if s = ''2025-10-24T03:00:00'' then Some (Naive (datetime 20385 3 0 0))
      else if s = ''2025-10-24T10:30:00+05:30''
        then Some (Aware \<lparr>wall = datetime 20385 10 30 0, utcoffset = APP_TZ_utcoffset\<rparr>)
      else if s = ''9999-12-31T23:00:00'' then Some (Naive (datetime 2932896 23 0 0))
      else if s = ''9999-12-31T22:00:00'' then Some (Naive (datetime 2932896 22 0 0))
      else None)"

definition example_strptime :: "string \<Rightarrow> string \<Rightarrow> naive option" where
  "example_strptime s fmt =
     (if fmt = ''%Y-%m-%d'' \<and> s = ''2025-10-24'' then Some (datetime 20385 0 0 0)
      else if fmt = ''%Y-%m-%d'' \<and> s = ''9999-12-31'' then Some (datetime 2932896 0 0 0)
      else None)"

definition example_int :: "string \<Rightarrow> int option" where
  "example_int s = (if s = ''2'' then Some 2 else if s = ''99'' then Some 99 else None)"

definition example_wall_offset :: "naive \<Rightarrow> int" where
  "example_wall_offset w = (if datetime (- 8844) 0 0 0 \<le> w then 19800000000 else 23400000000)"

definition example_utc_offset :: "naive \<Rightarrow> int" where
  "example_utc_offset u = (if datetime (- 8845) 17 30 0 \<le> u then 19800000000 else 23400000000)"

definition example_lib :: pylib where
  "example_lib = \<lparr>fromisoformat = example_fromisoformat, strptime = example_strptime,
                   int_of_str = example_int, tz_wall_offset = example_wall_offset,
                   tz_utc_offset = example_utc_offset\<rparr>"

definition two_days_args :: args where
  "two_days_args = [''days'' \<mapsto> ''2'']"

definition late_evening_run :: Run where
  "late_evening_run =
     \<lparr>request_id = ''r1'', scheduler = ''BLR-NSP-SCHEDULER1'', cloud = Some ''blr-cloud4'',
      started_at = datetime 20384 20 0 0, ended_at = None, status = ''PASSED'',
      reason = None, subreason = None, notes_text = None\<rparr>"

definition item_r1 :: item where
  "item_r1 = [''request_id'' \<mapsto> ''r1'', ''started_at'' \<mapsto> ''2025-10-24T05:00:00'',
              ''status'' \<mapsto> ''PASSED'']"

definition item_r1_later :: item where
  "item_r1_later = [''request_id'' \<mapsto> ''r1'', ''scheduler'' \<mapsto> ''BLR-NSP-SCHEDULER2'',
                    ''cloud'' \<mapsto> ''blr-cloud5'', ''started_at'' \<mapsto> ''2025-10-24T03:00:00'',
                    ''ended_at'' \<mapsto> ''2025-10-24T05:00:00'', ''status'' \<mapsto> ''FAILED'',
                    ''reason'' \<mapsto> ''Quota Exceed'', ''subreason'' \<mapsto> ''VM quota exceeded'',
                    ''notes'' \<mapsto> ''rerun'']"

definition item_no_started_at :: item where
  "item_no_started_at = [''request_id'' \<mapsto> ''r2'', ''status'' \<mapsto> ''PASSED'']"

definition item_r3 :: item where
  "item_r3 = [''request_id'' \<mapsto> ''r3'', ''started_at'' \<mapsto> ''2025-10-24T05:00:00'']"

definition row_r1 :: Run where
  "row_r1 = \<lparr>request_id = ''r1'', scheduler = ''BLR-NSP-SCHEDULER1'', cloud = None,
             started_at = datetime 20385 5 0 0, ended_at = None, status = ''PASSED'',
             reason = None, subreason = None, notes_text = None\<rparr>"

definition row_r1_later :: Run where
  "row_r1_later = \<lparr>request_id = ''r1'', scheduler = ''BLR-NSP-SCHEDULER2'',
             cloud = Some ''blr-cloud5'', started_at = datetime 20385 3 0 0,
             ended_at = Some (datetime 20385 5 0 0), status = ''FAILED'',
             reason = Some ''Quota Exceed'', subreason = Some ''VM quota exceeded'',
             notes_text = Some ''rerun''\<rparr>"

definition explicit_args :: args where
  "explicit_args = [''start'' \<mapsto> ''2025-10-24T03:00:00'', ''end'' \<mapsto> ''2025-10-24T10:30:00+05:30'']"

definition day_args :: args where
  "day_args = [''day'' \<mapsto> ''2025-10-24'']"

definition malformed_args :: args where
  "malformed_args = [''start'' \<mapsto> ''yesterday'', ''end'' \<mapsto> ''today'', ''day'' \<mapsto> ''24/10/2025'']"

definition inverted_args :: args where
  "inverted_args = [''start'' \<mapsto> ''2025-10-24T05:00:00'', ''end'' \<mapsto> ''2025-10-24T03:00:00'']"

definition last_day_args :: args where
  "last_day_args = [''day'' \<mapsto> ''9999-12-31'']"

definition last_hour_args :: args where
  "last_hour_args = [''start'' \<mapsto> ''9999-12-31T23:00:00'', ''end'' \<mapsto> ''9999-12-31T22:00:00'']"

section \<open>Calendar arithmetic\<close>

lemma datetime_next_day: "datetime (d + 1) H M S = datetime d H M S + timedelta_days 1"
  by (simp add: datetime_def timedelta_days_def algebra_simps)

lemma datetime_prev_day: "datetime (d - 1) H M S = datetime d H M S - timedelta_days 1"
  by (simp add: datetime_def timedelta_days_def algebra_simps)

lemma date_of_bounds:
  "datetime (date_of w) 0 0 0 \<le> w" "w < datetime (date_of w + 1) 0 0 0"
proof -
  have "0 \<le> w mod usec_per_day" "w mod usec_per_day < usec_per_day"
    by (simp_all add: usec_per_day_def)
  moreover have "w = date_of w * usec_per_day + w mod usec_per_day"
    by (simp add: date_of_def)
  ultimately show "datetime (date_of w) 0 0 0 \<le> w" "w < datetime (date_of w + 1) 0 0 0"
    by (simp_all add: datetime_def algebra_simps)
qed

lemma date_of_datetime:
  "0 \<le> (H * 60 + M) * 60 + S \<Longrightarrow> (H * 60 + M) * 60 + S < 86400 \<Longrightarrow> date_of (datetime d H M S) = d"
  unfolding date_of_def datetime_def usec_per_day_def
  by (simp add: div_pos_pos_trivial)

lemma anchor_cases:
  "date_of (datetime d 10 0 1) = d" "date_of (datetime d 10 0 0) = d"
  "date_of (datetime d 12 0 0) = d" "date_of (datetime d 0 0 0) = d"
  by (simp_all add: date_of_datetime)

lemma date_of_midnight: "date_of (datetime d 0 0 0) = d"
  by (simp add: date_of_datetime)

section \<open>The default window\<close>

text \<open>
  At the fixed offset the comparison of instants is a comparison of wall clocks, and the
  resolver returns the canonical window of the reference's date or of the date before.
\<close>

lemma window_at_tz:
  "window_at (tz_localize w) =
     anchored_window (if datetime (date_of w) 10 0 1 \<le> w then date_of w else date_of w - 1)"
  by (simp add: window_at_def anchored_window_def tz_localize_def aware_ge_def
      utc_instant_def aware_sub_def aware_add_def astimezone_def replace_tzinfo_None_def
      datetime_next_day datetime_prev_day Let_def)

lemma checked_in_range: "datetime_min \<le> t \<Longrightarrow> t \<le> datetime_max \<Longrightarrow> checked t = Inr t"
  by (simp add: checked_def)

lemma checked_above: "datetime_max < t \<Longrightarrow> checked t = Inl OverflowError"
  by (simp add: checked_def)

lemma localize_modern:
  assumes "ist_zone lib" and "IST_since \<le> w" and "w + timedelta_days 1 \<le> datetime_max"
  shows "localize lib w = Inr (tz_localize w)"
proof -
  have off: "tz_wall_offset lib w = APP_TZ_utcoffset"
    using assms(1,2) by (simp add: ist_zone_def)
  have lo: "datetime_min \<le> w - timedelta_days 1"
    using assms(2) by (simp add: IST_since_def datetime_min_def datetime_def timedelta_days_def usec_per_day_def)
  have hi: "w - timedelta_days 1 \<le> datetime_max" "datetime_min \<le> w + timedelta_days 1"
    using assms(3) lo by (simp_all add: timedelta_days_def usec_per_day_def)
  show ?thesis
    by (simp add: localize_def checked_in_range lo hi assms(3) off tz_localize_def)
qed

text \<open>
  On a modern day no check fires and the table gives +05:30: the checked body and the
  body at the fixed offset agree.
\<close>

lemma window_bounds_modern:
  assumes "ist_zone lib" and "modern_day (date_of w)"
  shows "window_bounds lib (tz_localize w) = Inr (window_at (tz_localize w))"
proof -
  let ?A = "datetime (date_of w) 10 0 1"
  from assms(2) have d: "- 8843 \<le> date_of w" "date_of w \<le> 2932895"
    by (simp_all add: modern_day_def)
  have a1: "IST_since \<le> ?A" "?A + timedelta_days 1 \<le> datetime_max"
    using d by (simp_all add: IST_since_def datetime_max_def datetime_def timedelta_days_def usec_per_day_def)
  have loc: "localize lib ?A = Inr (tz_localize ?A)"
    using assms(1) a1 by (rule localize_modern)
  have r: "datetime_min \<le> ?A - timedelta_days 1 - APP_TZ_utcoffset"
    "?A + timedelta_days 1 \<le> datetime_max"
    using d by (simp_all add: datetime_min_def datetime_max_def datetime_def timedelta_days_def
        usec_per_day_def APP_TZ_utcoffset_def)
  have pos: "0 \<le> timedelta_days 1" "0 \<le> APP_TZ_utcoffset"
    by (simp_all add: timedelta_days_def usec_per_day_def APP_TZ_utcoffset_def)
  have c: "checked (?A - timedelta_days 1) = Inr (?A - timedelta_days 1)"
    "checked ?A = Inr ?A"
    "checked (?A + timedelta_days 1) = Inr (?A + timedelta_days 1)"
    "checked (?A - timedelta_days 1 - APP_TZ_utcoffset) = Inr (?A - timedelta_days 1 - APP_TZ_utcoffset)"
    "checked (?A - APP_TZ_utcoffset) = Inr (?A - APP_TZ_utcoffset)"
    "checked (?A + timedelta_days 1 - APP_TZ_utcoffset) = Inr (?A + timedelta_days 1 - APP_TZ_utcoffset)"
    using r pos by (simp_all add: checked_def)
  show ?thesis
    unfolding window_bounds_def window_at_def
    by (simp add: loc tz_localize_def plus_timedelta_def to_utc_naive_def c Let_def aware_sub_def
        aware_add_def astimezone_def replace_tzinfo_None_def utc_instant_def)
qed

lemma example_zone: "ist_zone example_lib"
  by (simp add: ist_zone_def example_lib_def example_wall_offset_def example_utc_offset_def
      IST_since_def APP_TZ_utcoffset_def datetime_def usec_per_day_def)

text \<open>
  Claim C1 as stated fails. For the reference noon local time on 9999-12-31 (the
  reference that \<^verbatim>\<open>?day=9999-12-31\<close> gives) the resolution raises \<^verbatim>\<open>OverflowError\<close>
  and returns no window.
\<close>

theorem default_window_overflow:
  "get_window_bounds example_lib (Some (tz_localize (datetime 2932896 12 0 0))) 0 = Inl OverflowError"
proof -
  have "checked (datetime 2932896 10 0 1 - timedelta_days 1) = Inr (datetime 2932896 10 0 1 - timedelta_days 1)"
    by (simp add: checked_def datetime_min_def datetime_max_def datetime_def timedelta_days_def usec_per_day_def)
  moreover have "checked (datetime 2932896 10 0 1 + timedelta_days 1) = Inl OverflowError"
    by (simp add: checked_def datetime_min_def datetime_max_def datetime_def timedelta_days_def usec_per_day_def)
  ultimately have "localize example_lib (datetime 2932896 10 0 1) = Inl OverflowError"
    by (simp add: localize_def)
  then show ?thesis
    by (simp add: get_window_bounds_def window_bounds_def tz_localize_def anchor_cases)
qed

text \<open>
  Claim C1, amended. Let the zone table give +05:30 since 1945-10-15. For every
  reference instant \<open>R\<close> of the zone (wall clock \<open>w\<close>) on a day from 1945-10-16 to
  9999-12-30, the default resolution returns the canonical window of \<open>R\<close>'s calendar
  date when \<open>R\<close> is at or after 10:00:01 on that date, and the canonical window of the
  previous date otherwise; the window contains \<open>R\<close>. At the anchor second itself the
  window starts at \<open>R\<close>; one second earlier the window is the previous day's. A
  canonical window starts at 10:00:01 local time and ends 24 hours later.
\<close>

theorem default_window_resolution:
  assumes "ist_zone lib" and "modern_day (date_of w)" and "modern_day d"
  shows "get_window_bounds lib (Some (tz_localize w)) clock =
     Inr (anchored_window (if datetime (date_of w) 10 0 1 \<le> w then date_of w else date_of w - 1))
   \<and> in_window (start_utc_of (anchored_window (if datetime (date_of w) 10 0 1 \<le> w then date_of w else date_of w - 1)))
               (end_utc_of (anchored_window (if datetime (date_of w) 10 0 1 \<le> w then date_of w else date_of w - 1)))
               (utc_instant (tz_localize w))
   \<and> get_window_bounds lib (Some (tz_localize (datetime d 10 0 1))) clock = Inr (anchored_window d)
   \<and> fst (anchored_window d) = tz_localize (datetime d 10 0 1)
   \<and> get_window_bounds lib (Some (tz_localize (datetime d 10 0 1 - 1000000))) clock = Inr (anchored_window (d - 1))
   \<and> (case anchored_window d' of (A, B, start_utc, end_utc) \<Rightarrow>
        A = tz_localize (datetime d' 10 0 1) \<and> B = aware_add A (timedelta_days 1)
        \<and> start_utc = datetime d' 10 0 1 - APP_TZ_utcoffset \<and> end_utc = start_utc + timedelta_days 1)"
proof -
  have g: "get_window_bounds lib (Some (tz_localize v)) clock =
      Inr (anchored_window (if datetime (date_of v) 10 0 1 \<le> v then date_of v else date_of v - 1))"
    if "modern_day (date_of v)" for v
    by (simp only: get_window_bounds_def option.case window_bounds_modern [OF assms(1) that] window_at_tz)
  have eq: "datetime d 10 0 1 - 1000000 = datetime d 10 0 0"
    by (simp add: datetime_def)
  have lt: "\<not> datetime d 10 0 1 \<le> datetime d 10 0 0"
    by (simp add: datetime_def)
  have a: "get_window_bounds lib (Some (tz_localize (datetime d 10 0 1))) clock = Inr (anchored_window d)"
    using g [of "datetime d 10 0 1"] assms(3) by (simp add: anchor_cases)
  have a': "fst (anchored_window d) = tz_localize (datetime d 10 0 1)"
    by (simp add: anchored_window_def Let_def)
  have b: "get_window_bounds lib (Some (tz_localize (datetime d 10 0 1 - 1000000))) clock
      = Inr (anchored_window (d - 1))"
    using g [of "datetime d 10 0 0"] assms(3) lt by (simp add: eq anchor_cases)
  have c: "(case anchored_window d' of (A, B, start_utc, end_utc) \<Rightarrow>
        A = tz_localize (datetime d' 10 0 1) \<and> B = aware_add A (timedelta_days 1)
        \<and> start_utc = datetime d' 10 0 1 - APP_TZ_utcoffset \<and> end_utc = start_utc + timedelta_days 1)"
    by (simp add: anchored_window_def Let_def tz_localize_def aware_add_def utc_instant_def datetime_next_day)
  have i: "in_window (start_utc_of (anchored_window (if datetime (date_of w) 10 0 1 \<le> w then date_of w else date_of w - 1)))
               (end_utc_of (anchored_window (if datetime (date_of w) 10 0 1 \<le> w then date_of w else date_of w - 1)))
               (utc_instant (tz_localize w))"
    using date_of_bounds [of w]
    by (simp add: anchored_window_def Let_def start_utc_of_def end_utc_of_def in_window_def
        utc_instant_def tz_localize_def datetime_def usec_per_day_def)
  show ?thesis using g [OF assms(2)] a a' b c i by blast
qed

text \<open>
  Claim C1, amended, at 2025-10-24: 09:59:59 resolves to the window of 2025-10-23,
  10:00:01 starts its own window, and one second before 10:00:01 resolves to the window
  of 2025-10-23.
\<close>

theorem default_window_resolution_witness:
  "ist_zone example_lib \<and> modern_day (date_of (datetime 20385 9 59 59)) \<and> modern_day 20385
   \<and> get_window_bounds example_lib (Some (tz_localize (datetime 20385 9 59 59))) 0
       = Inr (anchored_window 20384)
   \<and> get_window_bounds example_lib (Some (tz_localize (datetime 20385 10 0 1))) 0
       = Inr (anchored_window 20385)
   \<and> get_window_bounds example_lib (Some (tz_localize (datetime 20385 10 0 1 - 1000000))) 0
       = Inr (anchored_window 20384)"
proof -
  have d: "date_of (datetime 20385 9 59 59) = 20385"
    by (simp add: date_of_datetime)
  have m: "modern_day 20385" by (simp add: modern_day_def)
  have m': "modern_day (date_of (datetime 20385 9 59 59))" by (simp add: d m)
  have lt: "\<not> datetime 20385 10 0 1 \<le> datetime 20385 9 59 59"
    by (simp add: datetime_def)
  show ?thesis
    using default_window_resolution [OF example_zone m' m, of 0 20385] d lt m example_zone by simp
qed

lemma tz_localize_add: "aware_add (tz_localize w) td = tz_localize (w + td)"
  by (simp add: aware_add_def tz_localize_def)

lemma date_of_add_day: "date_of (w + timedelta_days 1) = date_of w + 1"
  by (simp add: date_of_def timedelta_days_def usec_per_day_def)

lemma window_modern:
  assumes "ist_zone lib" and "modern_day (date_of w)"
  shows "get_window_bounds lib (Some (tz_localize w)) clock =
     Inr (anchored_window (if datetime (date_of w) 10 0 1 \<le> w then date_of w else date_of w - 1))"
  by (simp only: get_window_bounds_def option.case window_bounds_modern [OF assms] window_at_tz)

lemma window_next_day:
  assumes "ist_zone lib" and "modern_day (date_of w + 1)"
  shows "get_window_bounds lib (Some (aware_add (tz_localize w) (timedelta_days 1))) clock =
     Inr (anchored_window ((if datetime (date_of w) 10 0 1 \<le> w then date_of w else date_of w - 1) + 1))"
proof -
  have m: "modern_day (date_of (w + timedelta_days 1))"
    using assms(2) by (simp add: date_of_add_day)
  show ?thesis
    unfolding tz_localize_add window_modern [OF assms(1) m]
    by (simp add: date_of_add_day datetime_next_day)
qed

lemma adjacent_windows:
  "end_utc_of (anchored_window k) = start_utc_of (anchored_window (k + 1))
   \<and> fst (snd (anchored_window k)) = fst (anchored_window (k + 1))
   \<and> end_utc_of (anchored_window (k + 1)) = end_utc_of (anchored_window k) + timedelta_days 1
   \<and> \<not> (in_window (start_utc_of (anchored_window k)) (end_utc_of (anchored_window k)) t
        \<and> in_window (start_utc_of (anchored_window (k + 1))) (end_utc_of (anchored_window (k + 1))) t)
   \<and> in_window (start_utc_of (anchored_window (k + 1))) (end_utc_of (anchored_window (k + 1)))
        (end_utc_of (anchored_window k))
   \<and> \<not> in_window (start_utc_of (anchored_window k)) (end_utc_of (anchored_window k))
        (end_utc_of (anchored_window k))"
  by (simp add: anchored_window_def Let_def in_window_def start_utc_of_def end_utc_of_def
      utc_instant_def tz_localize_def datetime_def timedelta_days_def usec_per_day_def)

text \<open>
  Claim C2 as stated fails. At noon local time on 2025-10-24 the end of the window of
  \<open>R\<close> differs from the end of the window of \<open>R + 24h\<close>, and the boundary instant
  (the end of the window of \<open>R\<close>) is selected by the filter of the following window
  and not by the filter of the window of \<open>R\<close>.
\<close>

theorem window_end_counterexample:
  "get_window_bounds example_lib (Some (tz_localize (datetime 20385 12 0 0))) 0
     = Inr (anchored_window 20385)
   \<and> get_window_bounds example_lib (Some (aware_add (tz_localize (datetime 20385 12 0 0)) (timedelta_days 1))) 0
     = Inr (anchored_window 20386)
   \<and> end_utc_of (anchored_window 20385) \<noteq> end_utc_of (anchored_window 20386)
   \<and> in_window (start_utc_of (anchored_window 20386)) (end_utc_of (anchored_window 20386))
        (end_utc_of (anchored_window 20385))
   \<and> \<not> in_window (start_utc_of (anchored_window 20385)) (end_utc_of (anchored_window 20385))
        (end_utc_of (anchored_window 20385))"
proof -
  have m: "modern_day (date_of (datetime 20385 12 0 0))" "modern_day (date_of (datetime 20385 12 0 0) + 1)"
    by (simp_all add: anchor_cases modern_day_def)
  have le: "datetime 20385 10 0 1 \<le> datetime 20385 12 0 0"
    by (simp add: datetime_def)
  have a: "get_window_bounds example_lib (Some (tz_localize (datetime 20385 12 0 0))) 0
     = Inr (anchored_window 20385)"
    using window_modern [OF example_zone m(1), of 0] le by (simp add: anchor_cases)
  have b: "get_window_bounds example_lib (Some (aware_add (tz_localize (datetime 20385 12 0 0)) (timedelta_days 1))) 0
     = Inr (anchored_window 20386)"
    using window_next_day [OF example_zone m(2), of 0] le by (simp add: anchor_cases)
  have c: "end_utc_of (anchored_window 20385) \<noteq> end_utc_of (anchored_window 20386)"
    by (simp add: anchored_window_def Let_def end_utc_of_def utc_instant_def tz_localize_def
        datetime_def usec_per_day_def)
  have e: "(20385::int) + 1 = 20386" by simp
  show ?thesis
    using a b c adjacent_windows [of 20385 0, unfolded e] by blast
qed

text \<open>
  Claim C2, amended. Let the zone table give +05:30 since 1945-10-15. For every
  reference instant \<open>R\<close> of the zone whose day and next day lie from 1945-10-16 to
  9999-12-30, the window of \<open>R\<close> ends where the window of \<open>R + 24h\<close> starts, the
  latter ends 24 hours after the former, no instant is selected by both filters, and the
  boundary instant is selected by the following window (inclusive start) and not by the
  preceding one (strict end).
\<close>

theorem windows_contiguous:
  assumes "ist_zone lib" and "modern_day (date_of w)" and "modern_day (date_of w + 1)"
  shows "\<exists>W W'. get_window_bounds lib (Some (tz_localize w)) clock = Inr W
     \<and> get_window_bounds lib (Some (aware_add (tz_localize w) (timedelta_days 1))) clock = Inr W'
     \<and> end_utc_of W = start_utc_of W'
     \<and> fst (snd W) = fst W'
     \<and> end_utc_of W' = end_utc_of W + timedelta_days 1
     \<and> \<not> (in_window (start_utc_of W) (end_utc_of W) t \<and> in_window (start_utc_of W') (end_utc_of W') t)
     \<and> in_window (start_utc_of W') (end_utc_of W') (end_utc_of W)
     \<and> \<not> in_window (start_utc_of W) (end_utc_of W) (end_utc_of W)"
  using window_modern [OF assms(1,2), of clock] window_next_day [OF assms(1,3), of clock]
    adjacent_windows [of "if datetime (date_of w) 10 0 1 \<le> w then date_of w else date_of w - 1" t]
  by blast

text \<open>
  Claim C2, amended, at noon local time on 2025-10-24.
\<close>

theorem windows_contiguous_witness:
  "ist_zone example_lib \<and> modern_day (date_of (datetime 20385 12 0 0))
   \<and> modern_day (date_of (datetime 20385 12 0 0) + 1)
   \<and> get_window_bounds example_lib (Some (tz_localize (datetime 20385 12 0 0))) 0
       = Inr (anchored_window 20385)
   \<and> get_window_bounds example_lib (Some (aware_add (tz_localize (datetime 20385 12 0 0)) (timedelta_days 1))) 0
       = Inr (anchored_window 20386)
   \<and> end_utc_of (anchored_window 20385) = start_utc_of (anchored_window 20386)"
proof -
  have m: "modern_day (date_of (datetime 20385 12 0 0))" "modern_day (date_of (datetime 20385 12 0 0) + 1)"
    by (simp_all add: anchor_cases modern_day_def)
  have le: "datetime 20385 10 0 1 \<le> datetime 20385 12 0 0"
    by (simp add: datetime_def)
  have a: "get_window_bounds example_lib (Some (tz_localize (datetime 20385 12 0 0))) 0
     = Inr (anchored_window 20385)"
    using window_modern [OF example_zone m(1), of 0] le by (simp add: anchor_cases)
  have b: "get_window_bounds example_lib (Some (aware_add (tz_localize (datetime 20385 12 0 0)) (timedelta_days 1))) 0
     = Inr (anchored_window 20386)"
    using window_next_day [OF example_zone m(2), of 0] le by (simp add: anchor_cases)
  from windows_contiguous [OF example_zone m, of 0 0] obtain W W' where
    "get_window_bounds example_lib (Some (tz_localize (datetime 20385 12 0 0))) 0 = Inr W"
    "get_window_bounds example_lib (Some (aware_add (tz_localize (datetime 20385 12 0 0)) (timedelta_days 1))) 0 = Inr W'"
    "end_utc_of W = start_utc_of W'"
    by blast
  with a b have "end_utc_of (anchored_window 20385) = start_utc_of (anchored_window 20386)" by simp
  with a b m example_zone show ?thesis by simp
qed

section \<open>Grouped counts and the cloud trend\<close>

lemma sum_indicator_distinct:
  "distinct ks \<Longrightarrow>
   sum_list (map (\<lambda>k. if a = k then n else (0::nat)) ks) = (if a \<in> set ks then n else 0)"
proof (induction ks)
  case Nil
  then show ?case by simp
next
  case (Cons k ks)
  then show ?case by (cases "a = k") auto
qed

lemma group_sum_aux:
  "distinct ks \<Longrightarrow> key ` set xs \<subseteq> set ks \<Longrightarrow>
   sum_list (map (\<lambda>k. if P k then length (filter (\<lambda>x. key x = k) xs) else 0) ks)
     = length (filter (\<lambda>x. P (key x)) xs)"
proof (induction xs)
  case Nil
  have "(\<lambda>k. if P k then length (filter (\<lambda>x. key x = k) []) else 0) = (\<lambda>k. 0::nat)"
    by (rule ext) simp
  then show ?case by simp
next
  case (Cons x xs)
  have split: "(\<lambda>k. if P k then length (filter (\<lambda>y. key y = k) (x # xs)) else 0)
      = (\<lambda>k. (if key x = k then (if P (key x) then 1 else 0) else 0)
              + (if P k then length (filter (\<lambda>y. key y = k) xs) else 0))"
    by (rule ext) auto
  from Cons.prems have mem: "key x \<in> set ks" and sub: "key ` set xs \<subseteq> set ks" by auto
  have "sum_list (map (\<lambda>k. if P k then length (filter (\<lambda>y. key y = k) (x # xs)) else 0) ks)
      = sum_list (map (\<lambda>k. if key x = k then (if P (key x) then 1 else 0) else 0) ks)
        + sum_list (map (\<lambda>k. if P k then length (filter (\<lambda>y. key y = k) xs) else 0) ks)"
    unfolding split by (simp add: sum_list_addf)
  also have "\<dots> = (if P (key x) then 1 else 0) + length (filter (\<lambda>x. P (key x)) xs)"
    using Cons.IH [OF Cons.prems(1) sub] mem
    by (simp add: sum_indicator_distinct [OF Cons.prems(1)])
  finally show ?case by simp
qed

lemma group_count_sum:
  "sum_list (map (\<lambda>kn. if P (fst kn) then snd kn else 0) (group_count key xs))
     = length (filter (\<lambda>x. P (key x)) xs)"
proof -
  have "sum_list (map (\<lambda>kn. if P (fst kn) then snd kn else 0) (group_count key xs))
      = sum_list (map (\<lambda>k. if P k then length (filter (\<lambda>x. key x = k) xs) else 0) (remdups (map key xs)))"
    by (simp add: group_count_def comp_def cong: if_cong)
  also have "\<dots> = length (filter (\<lambda>x. P (key x)) xs)"
    by (rule group_sum_aux) simp_all
  finally show ?thesis .
qed

lemma lookup_bucket_row:
  "lookup_bucket (bucket_row ((rd, cv, sv), n) clouds) c d =
     (if or_default cv ''unknown'' = c \<and> rd = d
      then \<lparr>passed = passed (lookup_bucket clouds c d) + (if sv = ''PASSED'' then n else 0),
            failed = failed (lookup_bucket clouds c d) + (if sv = ''PASSED'' then 0 else n),
            total = total (lookup_bucket clouds c d) + n\<rparr>
      else lookup_bucket clouds c d)"
  by (simp add: lookup_bucket_def bucket_row_def Let_def split: option.splits)

lemma fold_bucket_row:
  "lookup_bucket (fold bucket_row rows clouds) c d =
     \<lparr>passed = passed (lookup_bucket clouds c d)
         + sum_list (map (\<lambda>kn. if row_in c d (fst kn) \<and> snd (snd (fst kn)) = ''PASSED'' then snd kn else 0) rows),
      failed = failed (lookup_bucket clouds c d)
         + sum_list (map (\<lambda>kn. if row_in c d (fst kn) \<and> snd (snd (fst kn)) \<noteq> ''PASSED'' then snd kn else 0) rows),
      total = total (lookup_bucket clouds c d)
         + sum_list (map (\<lambda>kn. if row_in c d (fst kn) then snd kn else 0) rows)\<rparr>"
proof (induction rows arbitrary: clouds)
  case Nil
  then show ?case by simp
next
  case (Cons row rows)
  obtain rd cv sv n where row: "row = ((rd, cv, sv), n)" by (metis prod.collapse)
  show ?case
    by (simp add: Cons.IH row lookup_bucket_row row_in_def)
qed

lemma fold_bucket_row_dom:
  "clouds c \<noteq> None \<Longrightarrow> fold bucket_row rows clouds c \<noteq> None"
proof (induction rows arbitrary: clouds)
  case Nil
  then show ?case by simp
next
  case (Cons row rows)
  have "bucket_row row clouds c \<noteq> None"
    using Cons.prems by (simp add: bucket_row_def Let_def split: prod.splits)
  then show ?case by (simp add: Cons.IH)
qed

lemma trend_days_param_range: "1 \<le> trend_days_param lib args" "trend_days_param lib args \<le> 30"
  by (simp_all add: trend_days_param_def Let_def)

lemma trend_labels:
  "map (\<lambda>i. date_of (wall (aware_add (aware_sub (tz_localize (datetime today 0 0 0)) (timedelta_days (D - 1)))
                                 (timedelta_days (int i))))) [0 ..< n]
     = map (\<lambda>i. today - (D - 1) + int i) [0 ..< n]"
proof -
  have "date_of (wall (aware_add (aware_sub (tz_localize (datetime today 0 0 0)) (timedelta_days (D - 1)))
                                 (timedelta_days (int i)))) = today - (D - 1) + int i" for i
  proof -
    have "wall (aware_add (aware_sub (tz_localize (datetime today 0 0 0)) (timedelta_days (D - 1)))
                                 (timedelta_days (int i))) = datetime (today - (D - 1) + int i) 0 0 0"
      by (simp add: aware_add_def aware_sub_def tz_localize_def timedelta_days_def datetime_def algebra_simps)
    then show ?thesis by (simp add: date_of_midnight)
  qed
  then show ?thesis by simp
qed

lemma trend_bounds:
  "replace_tzinfo_None (astimezone (aware_sub (tz_localize (datetime today 0 0 0)) (timedelta_days (D - 1))) 0)
     = datetime (today - (D - 1)) 0 0 0 - APP_TZ_utcoffset"
  "replace_tzinfo_None (astimezone (aware_add (tz_localize (datetime today 0 0 0)) (timedelta_days 1)) 0)
     = datetime (today + 1) 0 0 0 - APP_TZ_utcoffset"
  by (simp_all add: replace_tzinfo_None_def astimezone_def aware_sub_def aware_add_def tz_localize_def
      utc_instant_def timedelta_days_def datetime_def algebra_simps)

lemma lookup_default_clouds: "lookup_bucket default_clouds c d = zero_bucket"
  by (simp add: lookup_bucket_def default_clouds_def)

lemma trend_bucket:
  "lookup_bucket
     (fold bucket_row
        (trend_rows (datetime (today - (D - 1)) 0 0 0 - APP_TZ_utcoffset)
                    (datetime (today + 1) 0 0 0 - APP_TZ_utcoffset) db)
        default_clouds) c day
   = \<lparr>passed = length (filter (\<lambda>r. status r = ''PASSED'') (trend_matching today D c day db)),
      failed = length (filter (\<lambda>r. status r \<noteq> ''PASSED'') (trend_matching today D c day db)),
      total = length (trend_matching today D c day db)\<rparr>"
proof -
  let ?key = "\<lambda>r. (date_of (started_at r), cloud r, status r)"
  let ?sel = "window_rows (datetime (today - (D - 1)) 0 0 0 - APP_TZ_utcoffset)
                          (datetime (today + 1) 0 0 0 - APP_TZ_utcoffset) db"
  have p: "sum_list (map (\<lambda>kn. if row_in c day (fst kn) \<and> snd (snd (fst kn)) = ''PASSED'' then snd kn else 0)
                      (group_count ?key ?sel))
      = length (filter (\<lambda>r. status r = ''PASSED'') (trend_matching today D c day db))"
    using group_count_sum [of "\<lambda>k. row_in c day k \<and> snd (snd k) = ''PASSED''" ?key ?sel]
    by (simp add: trend_matching_def window_rows_def row_in_def conj_ac cong: conj_cong)
  have f: "sum_list (map (\<lambda>kn. if row_in c day (fst kn) \<and> snd (snd (fst kn)) \<noteq> ''PASSED'' then snd kn else 0)
                      (group_count ?key ?sel))
      = length (filter (\<lambda>r. status r \<noteq> ''PASSED'') (trend_matching today D c day db))"
    using group_count_sum [of "\<lambda>k. row_in c day k \<and> snd (snd k) \<noteq> ''PASSED''" ?key ?sel]
    by (simp add: trend_matching_def window_rows_def row_in_def conj_ac cong: conj_cong)
  have t: "sum_list (map (\<lambda>kn. if row_in c day (fst kn) then snd kn else 0) (group_count ?key ?sel))
      = length (trend_matching today D c day db)"
    using group_count_sum [of "\<lambda>k. row_in c day k" ?key ?sel]
    by (simp add: trend_matching_def window_rows_def row_in_def conj_ac cong: conj_cong)
  show ?thesis
    unfolding fold_bucket_row trend_rows_def lookup_default_clouds p f t
    by (simp add: zero_bucket_def)
qed

lemma api_cloud_trend_unfold:
  "api_cloud_trend lib args clock db =
     (let D = trend_days_param lib args;
          today = date_of (wall (datetime_now clock));
          labels = map (\<lambda>i. today - (D - 1) + int i) [0 ..< nat D];
          clouds = fold bucket_row
                     (trend_rows (datetime (today - (D - 1)) 0 0 0 - APP_TZ_utcoffset)
                                 (datetime (today + 1) 0 0 0 - APP_TZ_utcoffset) db)
                     default_clouds
      in \<lparr>trend_days = labels,
          trend_clouds = (\<lambda>c. map_option (series_of labels) (clouds c)),
          trend_window = (tz_localize (datetime (today - (D - 1)) 0 0 0), tz_localize (datetime (today + 1) 0 0 0))\<rparr>)"
  unfolding api_cloud_trend_def Let_def trend_bounds trend_labels
  by (simp add: aware_sub_def aware_add_def tz_localize_def timedelta_days_def datetime_def algebra_simps)

lemma series_of_lookup:
  "clouds c = Some m \<Longrightarrow> series_of labels m = map (\<lambda>day. (day, lookup_bucket clouds c day)) labels"
  by (simp add: series_of_def lookup_bucket_def)

lemma trend_days_two: "trend_days_param example_lib two_days_args = 2"
  by (simp add: trend_days_param_def example_lib_def example_int_def two_days_args_def)

lemma ex_rows: "trend_rows (datetime 20384 0 0 0 - APP_TZ_utcoffset) (datetime 20386 0 0 0 - APP_TZ_utcoffset) [late_evening_run]
   = [((20384, Some ''blr-cloud4'', ''PASSED''), 1)]"
  by (simp add: trend_rows_def window_rows_def group_count_def in_window_def late_evening_run_def
       datetime_def usec_per_day_def APP_TZ_utcoffset_def date_of_def)

text \<open>
  The trend view two days wide, read at noon local time on 2025-10-24, over a table whose
  one run started at 2025-10-23T20:00:00 UTC.
\<close>

lemma example_trend:
  "trend_days (api_cloud_trend example_lib two_days_args (datetime 20385 6 30 0) [late_evening_run])
       = [20384, 20385]
   \<and> trend_clouds (api_cloud_trend example_lib two_days_args (datetime 20385 6 30 0) [late_evening_run])
        ''blr-cloud4''
       = Some [(20384, \<lparr>passed = 1, failed = 0, total = 1\<rparr>), (20385, \<lparr>passed = 0, failed = 0, total = 0\<rparr>)]"
proof -
  have now: "date_of (wall (datetime_now (datetime 20385 6 30 0))) = 20385"
    by (simp add: datetime_now_def astimezone_def UTC_localize_def utc_instant_def date_of_def
        datetime_def usec_per_day_def APP_TZ_utcoffset_def)
  have su: "replace_tzinfo_None (astimezone (aware_sub (tz_localize (datetime 20385 0 0 0)) (timedelta_days (2 - 1))) 0)
      = datetime 20384 0 0 0 - APP_TZ_utcoffset"
    by (simp add: replace_tzinfo_None_def astimezone_def aware_sub_def tz_localize_def utc_instant_def
         timedelta_days_def datetime_def)
  have eu: "replace_tzinfo_None (astimezone (aware_add (tz_localize (datetime 20385 0 0 0)) (timedelta_days 1)) 0)
      = datetime 20386 0 0 0 - APP_TZ_utcoffset"
    by (simp add: replace_tzinfo_None_def astimezone_def aware_add_def tz_localize_def utc_instant_def
         timedelta_days_def datetime_def)
  have labels: "map (\<lambda>i. date_of (wall (aware_add (aware_sub (tz_localize (datetime 20385 0 0 0)) (timedelta_days (2 - 1))) (timedelta_days (int i))))) [0 ..< nat 2]
      = [20384, 20385]"
    by (simp add: upt_rec aware_add_def aware_sub_def tz_localize_def timedelta_days_def date_of_def
        datetime_def usec_per_day_def)
  have fold: "fold bucket_row [((20384, Some ''blr-cloud4'', ''PASSED''), 1)] default_clouds ''blr-cloud4''
      = Some [20384 \<mapsto> \<lparr>passed = 1, failed = 0, total = 1\<rparr>]"
    by (simp add: bucket_row_def default_clouds_def or_default_def zero_bucket_def Let_def)
  show ?thesis
    unfolding api_cloud_trend_def Let_def trend_days_two now su eu labels ex_rows
    using fold by (simp add: series_of_def zero_bucket_def)
qed

text \<open>
  Claim C3 fails on the code. The run stored with start 2025-10-23T20:00:00 UTC started
  on the local date 2025-10-24 (01:30 local time), and the day labels of the trend are
  the local dates 2025-10-23 and 2025-10-24; the grouped query takes the date part of the
  stored UTC value, so the run is counted under 2025-10-23.
\<close>

theorem cloud_trend_groups_by_stored_date:
  "date_of (wall (astimezone (UTC_localize (started_at late_evening_run)) APP_TZ_utcoffset)) = 20385
   \<and> trend_days (api_cloud_trend example_lib two_days_args (datetime 20385 6 30 0) [late_evening_run])
       = [20384, 20385]
   \<and> trend_clouds (api_cloud_trend example_lib two_days_args (datetime 20385 6 30 0) [late_evening_run])
        ''blr-cloud4''
       = Some [(20384, \<lparr>passed = 1, failed = 0, total = 1\<rparr>), (20385, \<lparr>passed = 0, failed = 0, total = 0\<rparr>)]"
proof -
  have "date_of (wall (astimezone (UTC_localize (started_at late_evening_run)) APP_TZ_utcoffset)) = 20385"
    by (simp add: late_evening_run_def astimezone_def UTC_localize_def utc_instant_def date_of_def
        datetime_def usec_per_day_def APP_TZ_utcoffset_def)
  with example_trend show ?thesis by simp
qed

text \<open>
  Claim C6. The effective day count \<open>D\<close> of the trend view is the \<^verbatim>\<open>days\<close> parameter
  (7 when absent or not an integer) clamped to the range 1 to 30. The day labels are the
  \<open>D\<close> consecutive local dates that end with the current one. The two default clouds
  are always present. Every series has \<open>D\<close> entries, one per label in order; the entry of
  a label holds the number of counted runs with status \<^verbatim>\<open>PASSED\<close>, the number with
  any other status (\<^verbatim>\<open>FAILED\<close>, and killed or other), and their total; so the total is
  the sum of the passed and failed fields, and a label with no counted run has zero
  counts.
\<close>

theorem cloud_trend_series:
  "(let D = trend_days_param lib args;
        today = date_of (wall (datetime_now clock));
        T = api_cloud_trend lib args clock db
    in D = max 1 (min (case args ''days'' of None \<Rightarrow> 7
                        | Some s \<Rightarrow> (case int_of_str lib s of Some n \<Rightarrow> n | None \<Rightarrow> 7)) 30)
     \<and> 1 \<le> D \<and> D \<le> 30
     \<and> trend_days T = map (\<lambda>i. today - (D - 1) + int i) [0 ..< nat D]
     \<and> trend_clouds T ''blr-cloud4'' \<noteq> None \<and> trend_clouds T ''blr-cloud5'' \<noteq> None
     \<and> (\<forall>c series. trend_clouds T c = Some series \<longrightarrow>
          length series = nat D
        \<and> series = map (\<lambda>day. (day,
              \<lparr>passed = length (filter (\<lambda>r. status r = ''PASSED'') (trend_matching today D c day db)),
               failed = length (filter (\<lambda>r. status r = ''FAILED'') (trend_matching today D c day db))
                      + length (filter (\<lambda>r. status r \<noteq> ''PASSED'' \<and> status r \<noteq> ''FAILED'')
                                  (trend_matching today D c day db)),
               total = length (trend_matching today D c day db)\<rparr>)) (trend_days T)
        \<and> (\<forall>e \<in> set series.
              total (snd e) = passed (snd e) + failed (snd e)
            \<and> (trend_matching today D c (fst e) db = [] \<longrightarrow> snd e = zero_bucket))))"
proof -
  define D where "D = trend_days_param lib args"
  define today where "today = date_of (wall (datetime_now clock))"
  define clouds where "clouds = fold bucket_row
                     (trend_rows (datetime (today - (D - 1)) 0 0 0 - APP_TZ_utcoffset)
                                 (datetime (today + 1) 0 0 0 - APP_TZ_utcoffset) db)
                     default_clouds"
  define labels where "labels = map (\<lambda>i. today - (D - 1) + int i) [0 ..< nat D]"
  define T where "T = api_cloud_trend lib args clock db"
  have T: "T = \<lparr>trend_days = labels,
          trend_clouds = (\<lambda>c. map_option (series_of labels) (clouds c)),
          trend_window = (tz_localize (datetime (today - (D - 1)) 0 0 0), tz_localize (datetime (today + 1) 0 0 0))\<rparr>"
    unfolding T_def api_cloud_trend_unfold Let_def D_def today_def clouds_def labels_def ..
  have split3: "length (filter (\<lambda>r. status r \<noteq> ''PASSED'') xs)
      = length (filter (\<lambda>r. status r = ''FAILED'') xs)
        + length (filter (\<lambda>r. status r \<noteq> ''PASSED'' \<and> status r \<noteq> ''FAILED'') xs)" for xs :: "Run list"
    by (induction xs) auto
  have bucket: "lookup_bucket clouds c day =
      \<lparr>passed = length (filter (\<lambda>r. status r = ''PASSED'') (trend_matching today D c day db)),
       failed = length (filter (\<lambda>r. status r = ''FAILED'') (trend_matching today D c day db))
              + length (filter (\<lambda>r. status r \<noteq> ''PASSED'' \<and> status r \<noteq> ''FAILED'')
                          (trend_matching today D c day db)),
       total = length (trend_matching today D c day db)\<rparr>" for c day
    unfolding clouds_def trend_bucket split3 ..
  have sum2: "length (filter (\<lambda>r. status r = ''PASSED'') xs) + length (filter (\<lambda>r. status r \<noteq> ''PASSED'') xs)
      = length xs" for xs :: "Run list"
    by (induction xs) auto
  have d1: "D = max 1 (min (case args ''days'' of None \<Rightarrow> 7
                        | Some s \<Rightarrow> (case int_of_str lib s of Some n \<Rightarrow> n | None \<Rightarrow> 7)) 30)"
    by (simp add: D_def trend_days_param_def Let_def)
  have d2: "1 \<le> D" "D \<le> 30"
    by (simp_all add: D_def trend_days_param_range)
  have days: "trend_days T = map (\<lambda>i. today - (D - 1) + int i) [0 ..< nat D]"
    by (simp add: T labels_def)
  have dflt: "trend_clouds T ''blr-cloud4'' \<noteq> None" "trend_clouds T ''blr-cloud5'' \<noteq> None"
    by (simp_all add: T clouds_def fold_bucket_row_dom default_clouds_def)
  have ser: "length series = nat D
        \<and> series = map (\<lambda>day. (day,
              \<lparr>passed = length (filter (\<lambda>r. status r = ''PASSED'') (trend_matching today D c day db)),
               failed = length (filter (\<lambda>r. status r = ''FAILED'') (trend_matching today D c day db))
                      + length (filter (\<lambda>r. status r \<noteq> ''PASSED'' \<and> status r \<noteq> ''FAILED'')
                                  (trend_matching today D c day db)),
               total = length (trend_matching today D c day db)\<rparr>)) (trend_days T)
        \<and> (\<forall>e \<in> set series.
              total (snd e) = passed (snd e) + failed (snd e)
            \<and> (trend_matching today D c (fst e) db = [] \<longrightarrow> snd e = zero_bucket))"
    if "trend_clouds T c = Some series" for c series
  proof -
    from that obtain m where m: "clouds c = Some m" and s: "series = series_of labels m"
      by (auto simp: T)
    have s': "series = map (\<lambda>day. (day, lookup_bucket clouds c day)) labels"
      using series_of_lookup [of clouds c m labels] m s by simp
    have len: "length series = nat D" by (simp add: s' labels_def)
    have each: "total (snd e) = passed (snd e) + failed (snd e)
            \<and> (trend_matching today D c (fst e) db = [] \<longrightarrow> snd e = zero_bucket)" if "e \<in> set series" for e
    proof -
      from that obtain day where e: "e = (day, lookup_bucket clouds c day)"
        by (auto simp: s')
      show ?thesis
        unfolding e fst_conv snd_conv bucket
        using sum2 [of "trend_matching today D c day db"] split3 [of "trend_matching today D c day db"]
        by (simp add: zero_bucket_def)
    qed
    have "trend_days T = labels" by (simp add: T)
    then show ?thesis using len each s' bucket by simp
  qed
  show ?thesis
    unfolding Let_def D_def [symmetric] today_def [symmetric] T_def [symmetric]
    using d1 d2 days dflt ser by blast
qed

text \<open>
  Claim C6 at the example: the series of \<^verbatim>\<open>blr-cloud4\<close> has two entries for two days.
\<close>

theorem cloud_trend_series_witness:
  "trend_clouds (api_cloud_trend example_lib two_days_args (datetime 20385 6 30 0) [late_evening_run])
        ''blr-cloud4''
     = Some [(20384, \<lparr>passed = 1, failed = 0, total = 1\<rparr>), (20385, \<lparr>passed = 0, failed = 0, total = 0\<rparr>)]
   \<and> length [(20384, \<lparr>passed = 1, failed = 0, total = 1\<rparr>), (20385, \<lparr>passed = 0, failed = 0, total = 0\<rparr>)]
       = nat (trend_days_param example_lib two_days_args)
   \<and> trend_days_param example_lib two_days_args = 2
   \<and> total \<lparr>passed = 1, failed = 0, total = 1\<rparr>
       = passed \<lparr>passed = 1, failed = 0, total = 1\<rparr> + failed \<lparr>passed = 1, failed = 0, total = 1\<rparr>"
proof -
  let ?T = "api_cloud_trend example_lib two_days_args (datetime 20385 6 30 0) [late_evening_run]"
  let ?S = "[(20384::int, \<lparr>passed = 1, failed = 0, total = 1::nat\<rparr>), (20385, \<lparr>passed = 0, failed = 0, total = 0\<rparr>)]"
  have s: "trend_clouds ?T ''blr-cloud4'' = Some ?S"
    using example_trend by simp
  have all: "\<forall>c series. trend_clouds ?T c = Some series \<longrightarrow>
      length series = nat (trend_days_param example_lib two_days_args)
      \<and> (\<forall>e \<in> set series. total (snd e) = passed (snd e) + failed (snd e))"
    using cloud_trend_series [of example_lib two_days_args "datetime 20385 6 30 0" "[late_evening_run]"]
    unfolding Let_def by blast
  from all s have "length ?S = nat (trend_days_param example_lib two_days_args)
      \<and> (\<forall>e \<in> set ?S. total (snd e) = passed (snd e) + failed (snd e))"
    by blast
  with s show ?thesis by (simp add: trend_days_two)
qed

section \<open>Properties of ingestion\<close>

lemma assign_fields_key: "assign_fields lib item rid = Inr rec \<Longrightarrow> request_id rec = rid"
  by (auto simp: assign_fields_def split: option.splits sum.splits if_splits)

lemma keys_update_first:
  "request_id rec = rid \<Longrightarrow> map request_id (update_first rid rec s) = map request_id s"
  by (induction s) auto

lemma rows_update_first_other:
  "request_id rec = rid \<Longrightarrow> k \<noteq> rid \<Longrightarrow> rows_with_key k (update_first rid rec s) = rows_with_key k s"
  by (induction s) (auto simp: rows_with_key_def)

lemma rows_absent: "rid \<notin> request_id ` set s \<Longrightarrow> rows_with_key rid s = []"
  by (induction s) (auto simp: rows_with_key_def)

lemma rows_update_first_same:
  "request_id rec = rid \<Longrightarrow> distinct (map request_id s) \<Longrightarrow> rid \<in> request_id ` set s \<Longrightarrow>
   rows_with_key rid (update_first rid rec s) = [rec]"
proof (induction s)
  case Nil
  then show ?case by simp
next
  case (Cons r s)
  show ?case
  proof (cases "request_id r = rid")
    case True
    with Cons.prems have "rid \<notin> request_id ` set s" by auto
    then have "rows_with_key rid s = []" by (rule rows_absent)
    with True Cons.prems(1) show ?thesis by (simp add: rows_with_key_def)
  next
    case False
    with Cons show ?thesis by (auto simp: rows_with_key_def)
  qed
qed

lemma find_key_None: "find (\<lambda>r. request_id r = rid) s = None \<longleftrightarrow> rid \<notin> request_id ` set s"
  by (auto simp: find_None_iff)

lemma find_key_Some: "find (\<lambda>r. request_id r = rid) s = Some old \<Longrightarrow> rid \<in> request_id ` set s"
  by (induction s) (auto split: if_splits)

text \<open>
  One element of the batch, as an equation.
\<close>

lemma ingest_loop_Cons:
  "ingest_loop lib (item # rest) (s, a, u) =
     (case item ''request_id'' of
        None \<Rightarrow> Inl (KeyError ''request_id'')
      | Some rid \<Rightarrow>
          (case assign_fields lib item rid of
             Inl e \<Rightarrow> Inl e
           | Inr rec \<Rightarrow>
               if rid \<in> request_id ` set s
               then ingest_loop lib rest (update_first rid rec s, a, u + 1)
               else ingest_loop lib rest (s @ [rec], a + 1, u)))"
proof (cases "item ''request_id''")
  case None
  then show ?thesis by simp
next
  case (Some rid)
  show ?thesis
  proof (cases "find (\<lambda>r. request_id r = rid) s")
    case None
    then have "rid \<notin> request_id ` set s" by (auto simp: find_None_iff)
    with None Some show ?thesis by (simp split: sum.splits)
  next
    case (Some old)
    then have "rid \<in> request_id ` set s" by (rule find_key_Some)
    with Some \<open>item ''request_id'' = Some rid\<close> show ?thesis by (simp split: sum.splits)
  qed
qed

lemma ingest_loop_append:
  "ingest_loop lib (xs @ ys) acc =
     (case ingest_loop lib xs acc of Inl e \<Rightarrow> Inl e | Inr acc' \<Rightarrow> ingest_loop lib ys acc')"
proof (induction xs arbitrary: acc)
  case Nil
  then show ?case by simp
next
  case (Cons x xs)
  obtain s a u where acc: "acc = (s, a, u)" by (cases acc) auto
  show ?case
    unfolding acc append_Cons ingest_loop_Cons
    by (simp add: Cons.IH split: option.splits sum.splits)
qed

lemma ingest_loop_distinct:
  "ingest_loop lib items (s, a, u) = Inr (s', a', u') \<Longrightarrow> distinct (map request_id s) \<Longrightarrow>
   distinct (map request_id s')"
proof (induction items arbitrary: s a u)
  case Nil
  then show ?case by simp
next
  case (Cons item items)
  from Cons.prems(1) obtain rid rec where
    rid: "item ''request_id'' = Some rid" and rec: "assign_fields lib item rid = Inr rec"
    and rest: "(if rid \<in> request_id ` set s
               then ingest_loop lib items (update_first rid rec s, a, u + 1)
               else ingest_loop lib items (s @ [rec], a + 1, u)) = Inr (s', a', u')"
    unfolding ingest_loop_Cons by (auto split: option.splits sum.splits)
  have key: "request_id rec = rid" using rec by (rule assign_fields_key)
  show ?case
  proof (cases "rid \<in> request_id ` set s")
    case True
    with rest have "ingest_loop lib items (update_first rid rec s, a, u + 1) = Inr (s', a', u')" by simp
    moreover have "distinct (map request_id (update_first rid rec s))"
      using Cons.prems(2) by (simp add: keys_update_first [OF key])
    ultimately show ?thesis by (rule Cons.IH)
  next
    case False
    with rest have "ingest_loop lib items (s @ [rec], a + 1, u) = Inr (s', a', u')" by simp
    moreover have "distinct (map request_id (s @ [rec]))"
      using Cons.prems(2) False key by auto
    ultimately show ?thesis by (rule Cons.IH)
  qed
qed

lemma ingest_loop_other_keys:
  "ingest_loop lib items (s, a, u) = Inr (s', a', u') \<Longrightarrow>
   \<forall>i \<in> set items. i ''request_id'' \<noteq> Some rid \<Longrightarrow>
   rows_with_key rid s' = rows_with_key rid s"
proof (induction items arbitrary: s a u)
  case Nil
  then show ?case by simp
next
  case (Cons item items)
  from Cons.prems(1) obtain k rec where
    k: "item ''request_id'' = Some k" and rec: "assign_fields lib item k = Inr rec"
    and rest: "(if k \<in> request_id ` set s
               then ingest_loop lib items (update_first k rec s, a, u + 1)
               else ingest_loop lib items (s @ [rec], a + 1, u)) = Inr (s', a', u')"
    unfolding ingest_loop_Cons by (auto split: option.splits sum.splits)
  have key: "request_id rec = k" using rec by (rule assign_fields_key)
  from Cons.prems(2) k have ne: "rid \<noteq> k" by auto
  from Cons.prems(2) have others: "\<forall>i \<in> set items. i ''request_id'' \<noteq> Some rid" by simp
  show ?case
  proof (cases "k \<in> request_id ` set s")
    case True
    with rest have "ingest_loop lib items (update_first k rec s, a, u + 1) = Inr (s', a', u')" by simp
    from Cons.IH [OF this others] show ?thesis
      by (simp add: rows_update_first_other [OF key ne])
  next
    case False
    with rest have "ingest_loop lib items (s @ [rec], a + 1, u) = Inr (s', a', u')" by simp
    from Cons.IH [OF this others] show ?thesis
      using key ne by (simp add: rows_with_key_def)
  qed
qed

lemma ingest_loop_one:
  assumes "ingest_loop lib [item] (s, a, u) = Inr (s', a', u')"
    and "item ''request_id'' = Some rid" and "distinct (map request_id s)"
  shows "\<exists>rec. assign_fields lib item rid = Inr rec \<and> rows_with_key rid s' = [rec]
           \<and> (if rid \<in> request_id ` set s
               then s' = update_first rid rec s \<and> a' = a \<and> u' = u + 1
               else s' = s @ [rec] \<and> a' = a + 1 \<and> u' = u)"
proof -
  from assms(1,2) obtain rec where rec: "assign_fields lib item rid = Inr rec"
    and rest: "(if rid \<in> request_id ` set s
               then ingest_loop lib [] (update_first rid rec s, a, u + 1)
               else ingest_loop lib [] (s @ [rec], a + 1, u)) = Inr (s', a', u')"
    unfolding ingest_loop_Cons by (auto split: option.splits sum.splits)
  have key: "request_id rec = rid" using rec by (rule assign_fields_key)
  show ?thesis
  proof (cases "rid \<in> request_id ` set s")
    case True
    with rest have "s' = update_first rid rec s" "a' = a" "u' = u + 1" by simp_all
    with True rec rows_update_first_same [OF key assms(3) True] show ?thesis by simp
  next
    case False
    with rest have s': "s' = s @ [rec]" "a' = a + 1" "u' = u" by simp_all
    have "rows_with_key rid (s @ [rec]) = [rec]"
      using rows_absent [OF False] key by (simp add: rows_with_key_def)
    with False rec s' show ?thesis by simp
  qed
qed

text \<open>
  A well-formed element is accepted, and the assignments give its record.
\<close>

lemma assign_fields_well_formed:
  assumes "well_formed lib item" and "item ''started_at'' = Some s" and "fromisoformat lib s = Some st"
  shows "assign_fields lib item rid = Inr (run_of_item lib item rid (stored_datetime st))"
proof (cases "item ''ended_at''")
  case None
  then show ?thesis
    by (simp add: assign_fields_def run_of_item_def parsed_datetime_def truthy_def assms(2,3))
next
  case (Some e)
  show ?thesis
  proof (cases "e = []")
    case True
    with Some show ?thesis
      by (simp add: assign_fields_def run_of_item_def parsed_datetime_def truthy_def assms(2,3))
  next
    case False
    with Some assms(1) obtain en where "fromisoformat lib e = Some en"
      by (auto simp: well_formed_def)
    with Some False show ?thesis
      by (simp add: assign_fields_def run_of_item_def parsed_datetime_def truthy_def or_default_def
          assms(2,3))
  qed
qed

lemma well_formed_accepted:
  assumes "well_formed lib item"
  shows "\<exists>rid rec. item ''request_id'' = Some rid \<and> assign_fields lib item rid = Inr rec"
proof -
  from assms obtain rid s st where "item ''request_id'' = Some rid"
    "item ''started_at'' = Some s" "fromisoformat lib s = Some st"
    by (auto simp: well_formed_def split: option.splits)
  with assign_fields_well_formed [OF assms] show ?thesis by blast
qed

text \<open>
  A batch of well-formed elements completes, and every element is counted once, as
  created or as updated.
\<close>

lemma ingest_loop_total:
  "\<forall>i \<in> set items. well_formed lib i \<Longrightarrow>
   \<exists>s' a' u'. ingest_loop lib items (s, a, u) = Inr (s', a', u') \<and> a' + u' = a + u + length items"
proof (induction items arbitrary: s a u)
  case Nil
  then show ?case by simp
next
  case (Cons item items)
  from Cons.prems have wf: "well_formed lib item" and rest: "\<forall>i \<in> set items. well_formed lib i"
    by simp_all
  from well_formed_accepted [OF wf] obtain rid rec where
    k: "item ''request_id'' = Some rid" and r: "assign_fields lib item rid = Inr rec"
    by blast
  show ?case
  proof (cases "rid \<in> request_id ` set s")
    case True
    from Cons.IH [OF rest, of "update_first rid rec s" a "u + 1"] True show ?thesis
      unfolding ingest_loop_Cons by (simp add: k r)
  next
    case False
    from Cons.IH [OF rest, of "s @ [rec]" "a + 1" u] False show ?thesis
      unfolding ingest_loop_Cons by (simp add: k r)
  qed
qed

lemma update_first_idem:
  "request_id rec = rid \<Longrightarrow> update_first rid rec (update_first rid rec s) = update_first rid rec s"
  by (induction s) auto

lemma update_first_appended:
  "request_id rec = rid \<Longrightarrow> rid \<notin> request_id ` set s \<Longrightarrow> update_first rid rec (s @ [rec]) = s @ [rec]"
  by (induction s) auto

lemma ingest_single:
  assumes "item ''request_id'' = Some rid" and "assign_fields lib item rid = Inr rec"
  shows "ingest_json lib (JArray [item]) s =
     (if rid \<in> request_id ` set s then (Ingested 0 1, update_first rid rec s)
      else (Ingested 1 0, s @ [rec]))"
  by (simp add: ingest_json_def ingest_loop_Cons assms del: ingest_loop.simps(2))

lemma example_items_key:
  "item_r1 ''request_id'' = Some ''r1''" "item_r1_later ''request_id'' = Some ''r1''"
  "item_no_started_at ''request_id'' = Some ''r2''" "item_no_started_at ''started_at'' = None"
  "item_r3 ''request_id'' = Some ''r3''"
  by (simp_all add: item_r1_def item_r1_later_def item_no_started_at_def item_r3_def)

lemma example_assign:
  "assign_fields example_lib item_r1 ''r1'' = Inr row_r1"
  "assign_fields example_lib item_r1_later ''r1'' = Inr row_r1_later"
  by (simp_all add: assign_fields_def item_r1_def item_r1_later_def example_lib_def
      example_fromisoformat_def truthy_def or_default_def stored_datetime_def row_r1_def
      row_r1_later_def)

lemma example_loop_r1: "ingest_loop example_lib [item_r1] ([], 0, 0) = Inr ([row_r1], 1, 0)"
  by (simp add: ingest_loop_Cons example_items_key example_assign del: ingest_loop.simps(2))

lemma example_batch:
  "ingest_json example_lib (JArray [item_r1, item_r1_later]) [] = (Ingested 1 1, [row_r1_later])"
  by (simp add: ingest_json_def ingest_loop_Cons example_items_key example_assign row_r1_def
      del: ingest_loop.simps(2))

lemma example_well_formed:
  "well_formed example_lib item_r1" "well_formed example_lib item_r1_later"
  by (simp_all add: well_formed_def item_r1_def item_r1_later_def example_lib_def
      example_fromisoformat_def)

lemma example_run_of_item:
  "run_of_item example_lib item_r1_later ''r1'' (stored_datetime (Naive (datetime 20385 3 0 0)))
     = row_r1_later"
  by (simp add: run_of_item_def parsed_datetime_def item_r1_later_def example_lib_def
      example_fromisoformat_def stored_datetime_def row_r1_later_def)

lemma example_started:
  "item_r1_later ''started_at'' = Some ''2025-10-24T03:00:00''"
  "fromisoformat example_lib ''2025-10-24T03:00:00'' = Some (Naive (datetime 20385 3 0 0))"
  by (simp_all add: item_r1_later_def example_lib_def example_fromisoformat_def)

text \<open>
  Claim C7. Let the table have unique keys and let every element of a batch be
  well-formed. Let the batch contain an element \<open>a\<close> and a later element \<open>b\<close> with the
  same \<^verbatim>\<open>request_id\<close>, no element after \<open>b\<close> having that key. Then the batch completes,
  counting each element as created or updated, and afterwards the table holds exactly
  one row under that key: the record of \<open>b\<close>, every column from \<open>b\<close>.
\<close>

theorem ingest_last_write_wins:
  assumes "distinct (map request_id db)"
    and "\<forall>i \<in> set (xs @ a # ys @ b # zs). well_formed lib i"
    and "a ''request_id'' = Some rid" and "b ''request_id'' = Some rid"
    and "b ''started_at'' = Some s" and "fromisoformat lib s = Some st"
    and "\<forall>z \<in> set zs. z ''request_id'' \<noteq> Some rid"
  shows "\<exists>n m db'. ingest_json lib (JArray (xs @ a # ys @ b # zs)) db = (Ingested n m, db')
     \<and> n + m = length (xs @ a # ys @ b # zs)
     \<and> rows_with_key rid db' = [run_of_item lib b rid (stored_datetime st)]"
proof -
  from ingest_loop_total [OF assms(2), of db 0 0] obtain db' n m where
    all: "ingest_loop lib (xs @ a # ys @ b # zs) (db, 0, 0) = Inr (db', n, m)"
    and cnt: "n + m = length (xs @ a # ys @ b # zs)"
    by auto
  have split: "xs @ a # ys @ b # zs = (xs @ a # ys) @ [b] @ zs" by simp
  from all have loop: "ingest_loop lib ((xs @ a # ys) @ [b] @ zs) (db, 0, 0) = Inr (db', n, m)"
    unfolding split .
  then obtain s1 a1 u1 where pre: "ingest_loop lib (xs @ a # ys) (db, 0, 0) = Inr (s1, a1, u1)"
    and l2: "ingest_loop lib ([b] @ zs) (s1, a1, u1) = Inr (db', n, m)"
    unfolding ingest_loop_append [of lib "xs @ a # ys"] by (auto split: sum.splits)
  from l2 obtain s2 a2 u2 where one: "ingest_loop lib [b] (s1, a1, u1) = Inr (s2, a2, u2)"
    and post: "ingest_loop lib zs (s2, a2, u2) = Inr (db', n, m)"
    unfolding ingest_loop_append [of lib "[b]"] by (auto split: sum.splits)
  have d1: "distinct (map request_id s1)"
    using pre assms(1) by (rule ingest_loop_distinct)
  have wfb: "well_formed lib b" using assms(2) by simp
  from ingest_loop_one [OF one assms(4) d1] obtain rec where
    rec: "assign_fields lib b rid = Inr rec" and rows: "rows_with_key rid s2 = [rec]"
    by blast
  from rec have "rec = run_of_item lib b rid (stored_datetime st)"
    by (simp add: assign_fields_well_formed [OF wfb assms(5,6)])
  with rows have "rows_with_key rid db' = [run_of_item lib b rid (stored_datetime st)]"
    using ingest_loop_other_keys [OF post assms(7)] by simp
  moreover have "ingest_json lib (JArray (xs @ a # ys @ b # zs)) db = (Ingested n m, db')"
    by (simp add: ingest_json_def all)
  ultimately show ?thesis using cnt by blast
qed

text \<open>
  Claim C7 at a batch of two elements with key \<^verbatim>\<open>r1\<close> on the empty table; the second
  element carries every field.
\<close>

theorem ingest_last_write_wins_witness:
  "distinct (map request_id ([] :: Run list))
   \<and> well_formed example_lib item_r1 \<and> well_formed example_lib item_r1_later
   \<and> item_r1 ''request_id'' = Some ''r1'' \<and> item_r1_later ''request_id'' = Some ''r1''
   \<and> ingest_json example_lib (JArray ([] @ item_r1 # [] @ item_r1_later # [])) []
       = (Ingested 1 1, [row_r1_later])
   \<and> rows_with_key ''r1'' [row_r1_later] = [row_r1_later]"
proof -
  have h1: "distinct (map request_id ([] :: Run list))" by simp
  have h2: "\<forall>i \<in> set ([] @ item_r1 # [] @ item_r1_later # []). well_formed example_lib i"
    by (simp add: example_well_formed)
  have h7: "\<forall>z \<in> set ([] :: item list). z ''request_id'' \<noteq> Some ''r1''" by simp
  have h: "ingest_json example_lib (JArray ([] @ item_r1 # [] @ item_r1_later # [])) []
       = (Ingested 1 1, [row_r1_later])"
    using example_batch by simp
  from ingest_last_write_wins [OF h1 h2 example_items_key(1) example_items_key(2) example_started h7]
  obtain n m db' where
    "ingest_json example_lib (JArray ([] @ item_r1 # [] @ item_r1_later # [])) [] = (Ingested n m, db')"
    "rows_with_key ''r1'' db' = [row_r1_later]"
    unfolding example_run_of_item by blast
  with h have "rows_with_key ''r1'' [row_r1_later] = [row_r1_later]" by simp
  with h1 h example_well_formed example_items_key(1,2) show ?thesis by blast
qed

text \<open>
  Claim C8. Let the table have unique keys and let the single element of a payload be
  well-formed. After two successive ingestions of the payload the table holds exactly
  one row under its key, the record of the element; the first call reports one created
  row when the key was not stored before (one updated row otherwise), the second call
  reports one updated row and none created, and leaves the table as the first call left
  it.
\<close>

theorem ingest_twice:
  assumes "distinct (map request_id db)" and "well_formed lib item"
    and "item ''request_id'' = Some rid"
    and "item ''started_at'' = Some s" and "fromisoformat lib s = Some st"
  shows "(case ingest_json lib (JArray [item]) db of (resp1, db1) \<Rightarrow>
          case ingest_json lib (JArray [item]) db1 of (resp2, db2) \<Rightarrow>
            rows_with_key rid db2 = [run_of_item lib item rid (stored_datetime st)]
          \<and> resp1 = (if rid \<in> request_id ` set db then Ingested 0 1 else Ingested 1 0)
          \<and> resp2 = Ingested 0 1
          \<and> db2 = db1)"
proof -
  define rec where "rec = run_of_item lib item rid (stored_datetime st)"
  have acc: "assign_fields lib item rid = Inr rec"
    unfolding rec_def by (rule assign_fields_well_formed [OF assms(2,4,5)])
  have key: "request_id rec = rid" using acc by (rule assign_fields_key)
  note single = ingest_single [OF assms(3) acc]
  have "(case ingest_json lib (JArray [item]) db of (resp1, db1) \<Rightarrow>
          case ingest_json lib (JArray [item]) db1 of (resp2, db2) \<Rightarrow>
            rows_with_key rid db2 = [rec]
          \<and> resp1 = (if rid \<in> request_id ` set db then Ingested 0 1 else Ingested 1 0)
          \<and> resp2 = Ingested 0 1
          \<and> db2 = db1)"
  proof (cases "rid \<in> request_id ` set db")
    case True
    have "set (map request_id (update_first rid rec db)) = set (map request_id db)"
      by (simp only: keys_update_first [OF key])
    with True have in1: "rid \<in> request_id ` set (update_first rid rec db)" by simp
    have r1: "ingest_json lib (JArray [item]) db = (Ingested 0 1, update_first rid rec db)"
      using True by (simp only: single if_True)
    have r2: "ingest_json lib (JArray [item]) (update_first rid rec db)
        = (Ingested 0 1, update_first rid rec db)"
      using in1 by (simp only: single if_True update_first_idem [OF key])
    show ?thesis
      unfolding r1 prod.case r2
      using True rows_update_first_same [OF key assms(1) True] by simp
  next
    case False
    have in1: "rid \<in> request_id ` set (db @ [rec])" using key by simp
    have rows: "rows_with_key rid (db @ [rec]) = [rec]"
      using rows_absent [OF False] key by (simp add: rows_with_key_def)
    have r1: "ingest_json lib (JArray [item]) db = (Ingested 1 0, db @ [rec])"
      using False by (simp only: single if_False)
    have r2: "ingest_json lib (JArray [item]) (db @ [rec]) = (Ingested 0 1, db @ [rec])"
      using in1 by (simp only: single if_True update_first_appended [OF key False])
    show ?thesis
      unfolding r1 prod.case r2
      using False rows by simp
  qed
  then show ?thesis unfolding rec_def .
qed

text \<open>
  Claim C8 at the payload with key \<^verbatim>\<open>r1\<close> that carries every field, on the empty table.
\<close>

theorem ingest_twice_witness:
  "distinct (map request_id ([] :: Run list)) \<and> well_formed example_lib item_r1_later
   \<and> item_r1_later ''request_id'' = Some ''r1''
   \<and> ingest_json example_lib (JArray [item_r1_later]) [] = (Ingested 1 0, [row_r1_later])
   \<and> ingest_json example_lib (JArray [item_r1_later]) [row_r1_later] = (Ingested 0 1, [row_r1_later])
   \<and> rows_with_key ''r1'' [row_r1_later] = [row_r1_later]"
proof -
  have h1: "distinct (map request_id ([] :: Run list))" by simp
  have first: "ingest_json example_lib (JArray [item_r1_later]) [] = (Ingested 1 0, [row_r1_later])"
    by (simp add: ingest_single [OF example_items_key(2) example_assign(2)])
  from ingest_twice [OF h1 example_well_formed(2) example_items_key(2) example_started] first
  have "case ingest_json example_lib (JArray [item_r1_later]) [row_r1_later] of (resp2, db2) \<Rightarrow>
            rows_with_key ''r1'' db2 = [row_r1_later] \<and> resp2 = Ingested 0 1 \<and> db2 = [row_r1_later]"
    unfolding example_run_of_item by simp
  then show ?thesis using h1 first example_items_key(2) example_well_formed(2) by auto
qed

text \<open>
  Claim C9 as stated fails. The first element alone is ingested and stored; in a batch
  where the second element has no \<^verbatim>\<open>started_at\<close> the request fails and the table is
  still empty: the row of the first element is not stored.
\<close>

theorem ingest_failure_keeps_nothing:
  "ingest_json example_lib (JArray [item_r1]) [] = (Ingested 1 0, [row_r1])
   \<and> ingest_json example_lib (JArray [item_r1, item_no_started_at, item_r3]) []
       = (Failed (KeyError ''started_at''), [])"
proof -
  have bad: "assign_fields example_lib item_no_started_at ''r2'' = Inl (KeyError ''started_at'')"
    by (simp add: assign_fields_def example_items_key)
  show ?thesis
    by (simp add: ingest_json_def ingest_loop_Cons example_items_key example_assign bad
        del: ingest_loop.simps(2))
qed

text \<open>
  Claim C9, amended. If the elements before it are processed without an exception and
  an element lacks \<^verbatim>\<open>request_id\<close> or \<^verbatim>\<open>started_at\<close>, the request fails with the
  \<^verbatim>\<open>KeyError\<close> of that element whatever follows it in the batch, and the stored table
  is the table before the request.
\<close>

theorem ingest_missing_field_aborts:
  assumes "ingest_loop lib pre (db, 0, 0) = Inr acc"
    and "bad ''request_id'' = None \<or> bad ''started_at'' = None"
  shows "ingest_json lib (JArray (pre @ bad # post)) db =
     (Failed (KeyError (if bad ''request_id'' = None then ''request_id'' else ''started_at'')), db)"
proof -
  obtain s a u where acc: "acc = (s, a, u)" by (cases acc) auto
  have "ingest_loop lib (bad # post) (s, a, u) =
      Inl (KeyError (if bad ''request_id'' = None then ''request_id'' else ''started_at''))"
    using assms(2) unfolding ingest_loop_Cons
    by (auto simp: assign_fields_def split: option.splits)
  then show ?thesis
    by (simp add: ingest_json_def ingest_loop_append assms(1) acc)
qed

text \<open>
  Claim C9, amended, at a batch whose second element has no \<^verbatim>\<open>started_at\<close>.
\<close>

theorem ingest_missing_field_aborts_witness:
  "ingest_loop example_lib [item_r1] ([], 0, 0) = Inr ([row_r1], 1, 0)
   \<and> item_no_started_at ''started_at'' = None
   \<and> ingest_json example_lib (JArray ([item_r1] @ item_no_started_at # [item_r3])) []
       = (Failed (KeyError ''started_at''), [])"
proof -
  have h2: "item_no_started_at ''request_id'' = None \<or> item_no_started_at ''started_at'' = None"
    by (simp add: example_items_key)
  show ?thesis
    using ingest_missing_field_aborts [OF example_loop_r1 h2, of "[item_r3]"]
    by (simp add: example_loop_r1 example_items_key del: ingest_loop.simps(2))
qed

section \<open>Resolving the window of a request\<close>

lemma parse_iso_utc_Some:
  assumes "s \<noteq> []" and "fromisoformat lib s = Some p"
    and "datetime_min \<le> iso_instant p" and "iso_instant p \<le> datetime_max"
  shows "parse_iso_utc lib s = Inr (Some (iso_instant p))"
  using assms
  by (cases p) (simp_all add: parse_iso_utc_def iso_instant_def to_utc_naive_def checked_def utc_instant_def)

lemma parse_iso_utc_None:
  "s = [] \<or> fromisoformat lib s = None \<Longrightarrow> parse_iso_utc lib s = Inr None"
  by (auto simp: parse_iso_utc_def)

lemma parse_iso_utc_representable:
  "representable lib (Some s) \<Longrightarrow> \<exists>v. parse_iso_utc lib s = Inr v"
proof (cases "s = [] \<or> fromisoformat lib s = None")
  case True
  then show ?thesis by (simp add: parse_iso_utc_None)
next
  case False
  then obtain p where p: "s \<noteq> []" "fromisoformat lib s = Some p" by auto
  assume "representable lib (Some s)"
  with p have "datetime_min \<le> iso_instant p" "iso_instant p \<le> datetime_max"
    by (simp_all add: representable_def)
  from parse_iso_utc_Some [OF p this] show ?thesis by blast
qed

lemma parse_iso_utc_fails:
  "parse_iso_utc lib s = Inr (Some u) \<Longrightarrow> s \<noteq> [] \<and> fromisoformat lib s \<noteq> None"
  by (auto simp: parse_iso_utc_def split: if_splits option.splits)




lemma explicit_window_None:
  assumes "\<not> (parses_iso lib (args ''start'') \<and> parses_iso lib (args ''end''))"
    and "representable lib (args ''start'')" and "representable lib (args ''end'')"
  shows "explicit_window lib args = Inr None"
proof (cases "args ''start''")
  case None
  then show ?thesis by (simp add: explicit_window_def)
next
  case s: (Some s)
  show ?thesis
  proof (cases "args ''end''")
    case None
    with s show ?thesis by (simp add: explicit_window_def)
  next
    case e: (Some e)
    from assms(2) s obtain vs where vs: "parse_iso_utc lib s = Inr vs"
      using parse_iso_utc_representable [of lib s] by auto
    from assms(3) e obtain ve where ve: "parse_iso_utc lib e = Inr ve"
      using parse_iso_utc_representable [of lib e] by auto
    have "\<not> (\<exists>a b. vs = Some a \<and> ve = Some b)"
    proof
      assume "\<exists>a b. vs = Some a \<and> ve = Some b"
      then obtain a b where "vs = Some a" "ve = Some b" by blast
      with vs ve have "s \<noteq> [] \<and> fromisoformat lib s \<noteq> None" "e \<noteq> [] \<and> fromisoformat lib e \<noteq> None"
        using parse_iso_utc_fails by blast+
      with s e assms(1) show False by (simp add: parses_iso_def)
    qed
    then show ?thesis
      by (auto simp: explicit_window_def s e vs ve split: option.splits)
  qed
qed



lemma day_window_None:
  "\<not> parses_day lib (args ''day'') \<Longrightarrow> day_window lib args clock = Inr None"
  by (auto simp: day_window_def parses_day_def split: option.splits)

lemma example_parse:
  "fromisoformat example_lib ''2025-10-24T03:00:00'' = Some (Naive (datetime 20385 3 0 0))"
  "fromisoformat example_lib ''2025-10-24T05:00:00'' = Some (Naive (datetime 20385 5 0 0))"
  "fromisoformat example_lib ''2025-10-24T10:30:00+05:30''
     = Some (Aware \<lparr>wall = datetime 20385 10 30 0, utcoffset = APP_TZ_utcoffset\<rparr>)"
  "fromisoformat example_lib ''9999-12-31T23:00:00'' = Some (Naive (datetime 2932896 23 0 0))"
  "fromisoformat example_lib ''9999-12-31T22:00:00'' = Some (Naive (datetime 2932896 22 0 0))"
  "fromisoformat example_lib ''yesterday'' = None"
  "fromisoformat example_lib ''today'' = None"
  "strptime example_lib ''2025-10-24'' ''%Y-%m-%d'' = Some (datetime 20385 0 0 0)"
  "strptime example_lib ''9999-12-31'' ''%Y-%m-%d'' = Some (datetime 2932896 0 0 0)"
  "strptime example_lib ''24/10/2025'' ''%Y-%m-%d'' = None"
  "strptime example_lib ''yesterday'' ''%Y-%m-%d %H:%M:%S'' = None"
  by (simp_all add: example_lib_def example_fromisoformat_def example_strptime_def)

lemma example_args:
  "explicit_args ''start'' = Some ''2025-10-24T03:00:00''"
  "explicit_args ''end'' = Some ''2025-10-24T10:30:00+05:30''"
  "day_args ''start'' = None" "day_args ''day'' = Some ''2025-10-24''"
  "malformed_args ''start'' = Some ''yesterday''" "malformed_args ''end'' = Some ''today''"
  "malformed_args ''day'' = Some ''24/10/2025''"
  "inverted_args ''start'' = Some ''2025-10-24T05:00:00''"
  "inverted_args ''end'' = Some ''2025-10-24T03:00:00''"
  "last_day_args ''start'' = None" "last_day_args ''day'' = Some ''9999-12-31''"
  "last_hour_args ''start'' = Some ''9999-12-31T23:00:00''"
  "last_hour_args ''end'' = Some ''9999-12-31T22:00:00''"
  by (simp_all add: explicit_args_def day_args_def malformed_args_def inverted_args_def
      last_day_args_def last_hour_args_def)





text \<open>
  Claim C5 fails on the code for the \<^verbatim>\<open>/details\<close> view. With unparsable \<^verbatim>\<open>start\<close> and
  \<^verbatim>\<open>end\<close> the view raises \<^verbatim>\<open>ValueError\<close>, while \<^verbatim>\<open>resolve_window_from_request\<close>, used
  by the API views, falls back to the default window for the same parameters.
\<close>

theorem details_malformed_raises:
  "details example_lib malformed_args clock db = Inl ValueError
   \<and> resolve_window_from_request example_lib malformed_args clock = get_window_bounds example_lib None clock"
proof -
  have "parse_dt_local example_lib ''yesterday'' = Inl ValueError"
    by (simp add: parse_dt_local_def example_parse)
  then have a: "details example_lib malformed_args clock db = Inl ValueError"
    by (simp add: details_def get_window_bounds_def example_args truthy_def or_default_def
        split: prod.splits)
  have "explicit_window example_lib malformed_args = Inr None"
    by (simp add: explicit_window_None parses_iso_def representable_def example_args example_parse)
  moreover have "day_window example_lib malformed_args clock = Inr None"
    by (simp add: day_window_None parses_day_def example_args example_parse)
  ultimately show ?thesis using a by (simp add: resolve_window_from_request_def)
qed

section \<open>Inverted windows\<close>





end
